theory Spec2Isabelle
  imports Main
begin

section \<open>Python strings and the library functions the sources call\<close>

text \<open>
  A Python \<open>str\<close> is modelled as a \<open>string\<close> of ASCII characters. The helpers below are
  models of the built-in and standard-library functions that \<open>Browser.py\<close> and
  \<open>MdConverter.py\<close> call on strings; each one is named after the Python function it stands for.
\<close>

abbreviation NL :: char where "NL \<equiv> CHR 0x0A"
abbreviation CR :: char where "CR \<equiv> CHR 0x0D"
abbreviation TAB :: char where "TAB \<equiv> CHR 0x09"

definition is_space :: "char \<Rightarrow> bool" where
  \<comment> \<open>\<open>str.isspace\<close> on ASCII: TAB, LF, VT, FF, CR, the separators 0x1C..0x1F and the space.\<close>
  "is_space c = (let n = (of_char c :: nat) in (9 \<le> n \<and> n \<le> 13) \<or> (28 \<le> n \<and> n \<le> 32))"

definition is_word_char :: "char \<Rightarrow> bool" where
  \<comment> \<open>the regular-expression class \<open>\w\<close> on ASCII: letters, digits and the underscore.\<close>
  "is_word_char c =
     (let n = (of_char c :: nat)
      in (48 \<le> n \<and> n \<le> 57) \<or> (65 \<le> n \<and> n \<le> 90) \<or> n = 95 \<or> (97 \<le> n \<and> n \<le> 122))"

definition lower_char :: "char \<Rightarrow> char" where
  "lower_char c = (let n = (of_char c :: nat) in if 65 \<le> n \<and> n \<le> 90 then char_of (n + 32) else c)"

definition lower :: "string \<Rightarrow> string" where
  "lower s = map lower_char s"

definition lstrip :: "string \<Rightarrow> string" where
  "lstrip s = dropWhile is_space s"

definition rstrip :: "string \<Rightarrow> string" where
  "rstrip s = rev (dropWhile is_space (rev s))"

definition strip :: "string \<Rightarrow> string" where
  "strip s = rstrip (lstrip s)"

definition strip_chars :: "string \<Rightarrow> string \<Rightarrow> string" where
  \<comment> \<open>\<open>s.strip(chars)\<close>\<close>
  "strip_chars chars s =
     rev (dropWhile (\<lambda>c. List.member chars c) (rev (dropWhile (\<lambda>c. List.member chars c) s)))"

definition startswith :: "string \<Rightarrow> string \<Rightarrow> bool" where
  "startswith s p = (take (length p) s = p)"

definition endswith :: "string \<Rightarrow> string \<Rightarrow> bool" where
  "endswith s p = startswith (rev s) (rev p)"

fun contains :: "string \<Rightarrow> string \<Rightarrow> bool" where
  \<comment> \<open>\<open>sub in s\<close>\<close>
  "contains [] sub = (sub = [])"
| "contains (c # cs) sub = (startswith (c # cs) sub \<or> contains cs sub)"

fun join :: "string \<Rightarrow> string list \<Rightarrow> string" where
  \<comment> \<open>\<open>sep.join(xs)\<close>\<close>
  "join sep [] = []"
| "join sep [x] = x"
| "join sep (x # y # ys) = x @ sep @ join sep (y # ys)"

fun re_split_nonword_from :: "bool \<Rightarrow> string \<Rightarrow> string \<Rightarrow> string list" where
  \<comment> \<open>the scan of \<open>re.split(r"\W+", s)\<close>: \<open>in_sep\<close> says that the previous character belonged
      to a separator run, \<open>cur\<close> is the piece read so far.\<close>
  "re_split_nonword_from in_sep cur [] = [cur]"
| "re_split_nonword_from in_sep cur (c # cs) =
     (if is_word_char c then re_split_nonword_from False (cur @ [c]) cs
      else if in_sep then re_split_nonword_from True cur cs
      else cur # re_split_nonword_from True [] cs)"

definition re_split_nonword :: "string \<Rightarrow> string list" where
  "re_split_nonword s = re_split_nonword_from False [] s"

fun replace_from :: "string \<Rightarrow> string \<Rightarrow> nat \<Rightarrow> string \<Rightarrow> string" where
  \<comment> \<open>the scan of \<open>s.replace(old, new)\<close> for a non-empty \<open>old\<close>: \<open>skip\<close> counts the characters
      of an occurrence that are still to be dropped.\<close>
  "replace_from old new skip [] = []"
| "replace_from old new 0 (c # cs) =
     (if startswith (c # cs) old then new @ replace_from old new (length old - 1) cs
      else c # replace_from old new 0 cs)"
| "replace_from old new (Suc k) (c # cs) = replace_from old new k cs"

definition replace :: "string \<Rightarrow> string \<Rightarrow> string \<Rightarrow> string" where
  \<comment> \<open>\<open>s.replace(old, new)\<close>, and \<open>re.sub\<close> of a literal pattern\<close>
  "replace s old new = replace_from old new 0 s"

definition re_atom :: "char \<Rightarrow> char \<Rightarrow> bool" where
  \<comment> \<open>one pattern character against one text character: \<open>.\<close> is any character but a newline.\<close>
  "re_atom p c = (if p = CHR ''.'' then c \<noteq> NL else p = c)"

function re_match_here :: "string \<Rightarrow> string \<Rightarrow> bool"
  and re_match_star :: "char \<Rightarrow> string \<Rightarrow> string \<Rightarrow> bool" where
  \<comment> \<open>\<open>re.match\<close> for patterns made of literal characters, \<open>.\<close> and a postfix \<open>*\<close>: the
      only patterns \<open>_find_next_viewport\<close> builds.\<close>
  "re_match_here [] s = True"
| "re_match_here [p] s = (case s of [] \<Rightarrow> False | c # cs \<Rightarrow> re_atom p c)"
| "re_match_here (p # q # ps) s =
     (if q = CHR ''*'' then re_match_star p ps s
      else (case s of [] \<Rightarrow> False | c # cs \<Rightarrow> re_atom p c \<and> re_match_here (q # ps) cs))"
| "re_match_star p ps s =
     (re_match_here ps s \<or> (case s of [] \<Rightarrow> False | c # cs \<Rightarrow> re_atom p c \<and> re_match_star p ps cs))"
  by pat_completeness auto
termination
  by (relation "measure (\<lambda>x. case x of Inl (ps, s) \<Rightarrow> 2 * length ps + length s
                                     | Inr (p, ps, s) \<Rightarrow> 2 * length ps + length s + 1)") auto

fun re_search :: "string \<Rightarrow> string \<Rightarrow> bool" where
  \<comment> \<open>\<open>re.search(pattern, s)\<close> as a truth value: a match at some position of \<open>s\<close>.\<close>
  "re_search pat [] = re_match_here pat []"
| "re_search pat (c # cs) = (re_match_here pat (c # cs) \<or> re_search pat cs)"

fun re_split_lines_from :: "string \<Rightarrow> string \<Rightarrow> string list" where
  \<comment> \<open>the scan of \<open>re.split(r"\r?\n", s)\<close>\<close>
  "re_split_lines_from cur [] = [cur]"
| "re_split_lines_from cur [c] = (if c = NL then [cur, []] else [cur @ [c]])"
| "re_split_lines_from cur (c # d # cs) =
     (if c = NL then cur # re_split_lines_from [] (d # cs)
      else if c = CR \<and> d = NL then cur # re_split_lines_from [] cs
      else re_split_lines_from (cur @ [c]) (d # cs))"

definition re_split_lines :: "string \<Rightarrow> string list" where
  "re_split_lines s = re_split_lines_from [] s"

definition emit_newlines :: "nat \<Rightarrow> string" where
  "emit_newlines n = (if 3 \<le> n then [NL, NL] else replicate n NL)"

fun re_sub_newlines_from :: "nat \<Rightarrow> string \<Rightarrow> string" where
  \<comment> \<open>the scan of \<open>re.sub(r"\n{3,}", "\n\n", s)\<close>: \<open>n\<close> newlines of the current run are pending.\<close>
  "re_sub_newlines_from n [] = emit_newlines n"
| "re_sub_newlines_from n (c # cs) =
     (if c = NL then re_sub_newlines_from (Suc n) cs
      else emit_newlines n @ c # re_sub_newlines_from 0 cs)"

definition re_sub_newlines :: "string \<Rightarrow> string" where
  "re_sub_newlines s = re_sub_newlines_from 0 s"

fun find_filename :: "string \<Rightarrow> string option" where
  \<comment> \<open>group 1 of \<open>re.search(r"filename=([^;]+)", s)\<close>, \<open>None\<close> when there is no match.\<close>
  "find_filename [] = None"
| "find_filename (c # cs) =
     (if startswith (c # cs) ''filename='' \<and> takeWhile (\<lambda>x. x \<noteq> CHR '';'') (drop 9 (c # cs)) \<noteq> []
      then Some (takeWhile (\<lambda>x. x \<noteq> CHR '';'') (drop 9 (c # cs)))
      else find_filename cs)"

definition splitext :: "string \<Rightarrow> string \<times> string" where
  \<comment> \<open>\<open>os.path.splitext\<close> (POSIX): the extension starts at the last dot of the last path
      component, unless only dots precede it there.\<close>
  "splitext p =
     (let name = rev (takeWhile (\<lambda>c. c \<noteq> CHR ''/'') (rev p));
          after_dot = rev (takeWhile (\<lambda>c. c \<noteq> CHR ''.'') (rev name));
          stem = take (length name - length after_dot - 1) name
      in if List.member name CHR ''.'' \<and> list_ex (\<lambda>c. c \<noteq> CHR ''.'') stem
         then (take (length p - length after_dot - 1) p, CHR ''.'' # after_dot)
         else (p, []))"

definition py_index :: "'a list \<Rightarrow> int \<Rightarrow> 'a option" where
  \<comment> \<open>\<open>xs[i]\<close>: a negative index counts from the end; \<open>None\<close> stands for IndexError.\<close>
  "py_index xs i =
     (let n = int (length xs); j = (if i < 0 then n + i else i)
      in if 0 \<le> j \<and> j < n then Some (xs ! nat j) else None)"

definition py_slice :: "'a list \<Rightarrow> int \<Rightarrow> int \<Rightarrow> 'a list" where
  \<comment> \<open>\<open>xs[a:b]\<close>: negative bounds count from the end, and both are clamped to the list.\<close>
  "py_slice xs a b =
     (let n = int (length xs);
          a' = (if a < 0 then max (n + a) 0 else min a n);
          b' = (if b < 0 then max (n + b) 0 else min b n)
      in take (nat (b' - a')) (drop (nat a') xs))"

definition py_range :: "int \<Rightarrow> int \<Rightarrow> int list" where
  \<comment> \<open>\<open>range(a, b)\<close>\<close>
  "py_range a b = [a..b - 1]"

fun str_of_nat :: "nat \<Rightarrow> string" where
  "str_of_nat n = (if n < 10 then [char_of (48 + n)] else str_of_nat (n div 10) @ [char_of (48 + n mod 10)])"

definition str_of_int :: "int \<Rightarrow> string" where
  "str_of_int i = (if i < 0 then CHR ''-'' # str_of_nat (nat (- i)) else str_of_nat (nat i))"

definition repr_str :: "string \<Rightarrow> string" where
  \<comment> \<open>\<open>repr\<close> of a string that needs no escaping\<close>
  "repr_str s = [CHR 0x27] @ s @ [CHR 0x27]"

definition repr_str_list :: "string list \<Rightarrow> string" where
  "repr_str_list xs = ''['' @ join '', '' (map repr_str xs) @ '']''"

section \<open>Exceptions\<close>

text \<open>
  Every exception class the two modules raise, catch or let through is a constructor;
  \<open>OtherError\<close> stands for any exception of a library that no \<open>except\<close> clause names
  (a decoding error, a parser error). A function that can raise returns \<open>error + 'a\<close>.
\<close>

datatype error =
    FileConversionException string "string list" string
  | UnsupportedFormatException string
  | FileNotFoundError string
  | IsADirectoryError string
  | PermissionError string
  | RequestException string
  | NameError string
  | AttributeError string
  | IndexError
  | TypeError string
  | OtherError string

definition exception_name :: "error \<Rightarrow> string" where
  "exception_name e =
     (case e of
        FileConversionException p exts tr \<Rightarrow> ''FileConversionException''
      | UnsupportedFormatException m \<Rightarrow> ''UnsupportedFormatException''
      | FileNotFoundError m \<Rightarrow> ''FileNotFoundError''
      | IsADirectoryError m \<Rightarrow> ''IsADirectoryError''
      | PermissionError m \<Rightarrow> ''PermissionError''
      | RequestException m \<Rightarrow> ''RequestException''
      | NameError m \<Rightarrow> ''NameError''
      | AttributeError m \<Rightarrow> ''AttributeError''
      | IndexError \<Rightarrow> ''IndexError''
      | TypeError m \<Rightarrow> ''TypeError''
      | OtherError m \<Rightarrow> ''Exception'')"

definition str_of_error :: "error \<Rightarrow> string" where
  \<comment> \<open>\<open>str(e)\<close>; for FileConversionException the message \<open>_convert\<close> formats.\<close>
  "str_of_error e =
     (case e of
        FileConversionException p exts tr \<Rightarrow>
          ''Could not convert '' @ repr_str p @ '' to Markdown. File type was recognized as ''
            @ repr_str_list exts
            @ ''. While converting the file, the following error was encountered:''
            @ [NL, NL] @ tr
      | UnsupportedFormatException m \<Rightarrow> m
      | FileNotFoundError m \<Rightarrow> m
      | IsADirectoryError m \<Rightarrow> m
      | PermissionError m \<Rightarrow> m
      | RequestException m \<Rightarrow> m
      | NameError m \<Rightarrow> m
      | AttributeError m \<Rightarrow> m
      | IndexError \<Rightarrow> ''list index out of range''
      | TypeError m \<Rightarrow> m
      | OtherError m \<Rightarrow> m)"

definition format_exc :: "error \<Rightarrow> string" where
  \<comment> \<open>\<open>traceback.format_exc()\<close> inside an \<open>except\<close> block: the header line, then the
      exception's line (the stack frames between them are left out).\<close>
  "format_exc e =
     ''Traceback (most recent call last):'' @ [NL] @ exception_name e @ '': '' @ str_of_error e @ [NL]"

section \<open>MdConverter.py\<close>

subsection \<open>Data\<close>

record document_converter_result =
  title :: "string option"
  text_content :: string

text \<open>
  A keyword argument is absent, passed as \<open>None\<close>, or passed with a value:
  \<open>kwargs.get(k)\<close> and \<open>kwargs.get(k, default)\<close> tell the first two apart.
\<close>

datatype 'a kwarg = Absent | PyNone | Given 'a

definition kw_get :: "'a kwarg \<Rightarrow> 'a option" where
  \<comment> \<open>\<open>kwargs.get(k)\<close>, with \<open>None\<close> for Python's None\<close>
  "kw_get a = (case a of Absent \<Rightarrow> None | PyNone \<Rightarrow> None | Given x \<Rightarrow> Some x)"

definition kw_get_or :: "'a \<Rightarrow> 'a kwarg \<Rightarrow> 'a option" where
  \<comment> \<open>\<open>kwargs.get(k, default)\<close>\<close>
  "kw_get_or d a = (case a of Absent \<Rightarrow> Some d | PyNone \<Rightarrow> None | Given x \<Rightarrow> Some x)"

record kwargs =
  kw_file_extension :: "string kwarg"
  kw_encoding :: "string kwarg"
  kw_url :: "string kwarg"

definition no_kwargs :: kwargs where
  "no_kwargs = \<lparr>kw_file_extension = Absent, kw_encoding = Absent, kw_url = Absent\<rparr>"

datatype converter =
    XmlConverter | YouTubeConverter | DocxConverter | XlsxConverter | PptxConverter
  | PdfConverter | AudioConverter | HtmlConverter | PlainTextConverter

text \<open>
  A \<open>requests.Response\<close>, as far as the two modules read it. \<open>resp_temp_path\<close> is the
  path \<open>tempfile.mkstemp()\<close> returns when \<open>convert_response\<close> saves this response's body;
  the file oracles of the world describe the saved body at that path.
\<close>

record response =
  resp_url :: string
  resp_encoding :: "string option"
  resp_status_code :: nat
  resp_content_type :: "string option"
  resp_content_disposition :: "string option"
  resp_iter_content :: "error + string"
  resp_temp_path :: string

record search_hit =
  hit_title :: string
  hit_url :: string
  hit_content :: string
  hit_publishedDate :: string

text \<open>
  The world outside the two modules: the file system, the network and the libraries whose
  code is not part of the repository. Each field is the result of one library call.
  \<^item> \<open>read_text path encoding\<close>: \<open>open(path, "rt", encoding=encoding).read()\<close>;
  \<^item> \<open>library_convert c path kwargs\<close>: the body of converter \<open>c\<close> after its extension
    gate (pdfminer, mammoth, pandas, python-pptx, BeautifulSoup, the transcription call);
  \<^item> \<open>magic_file path\<close>: the extensions of the guesses of \<open>puremagic.magic_file(path)\<close>;
  \<^item> \<open>guess_extension\<close>: \<open>mimetypes.guess_extension\<close>;
  \<^item> \<open>urlparse_path url\<close>: \<open>urlparse(url).path\<close>;
  \<^item> \<open>session_get\<close>, \<open>requests_get\<close>: the GET request of the converter's session and of
    the browser;
  \<^item> \<open>clock\<close>: \<open>time.time()\<close>;
  \<^item> \<open>urljoin\<close>: \<open>urllib.parse.urljoin\<close>;
  \<^item> \<open>unquote_normpath s\<close>: \<open>os.path.normcase(os.path.normpath(unquote(s)))\<close>;
  \<^item> \<open>url_quote\<close>: the percent-encoding \<open>pathlib.Path.as_uri\<close> applies to a path;
  \<^item> \<open>searx_results url query time_range\<close>: the GET request of \<open>_searxng_search\<close>, its
    \<open>raise_for_status()\<close> and the \<open>"results"\<close> list of its JSON body (empty when the key
    is missing), each entry read with the defaults of \<open>page.get\<close>;
  \<^item> \<open>choose_download_path folder url\<close>: lines 369-399 of \<open>_fetch_page\<close>, the choice of a
    file name that does not exist yet in the downloads folder;
  \<^item> \<open>write_download path response\<close>: lines 402-404, writing the body to that file.
\<close>

record world =
  read_text :: "string \<Rightarrow> string option \<Rightarrow> error + string"
  library_convert :: "converter \<Rightarrow> string \<Rightarrow> kwargs \<Rightarrow> error + document_converter_result"
  magic_file :: "string \<Rightarrow> error + string list"
  guess_extension :: "string \<Rightarrow> string option"
  urlparse_path :: "string \<Rightarrow> string"
  session_get :: "string \<Rightarrow> error + response"
  requests_get :: "string \<Rightarrow> error + response"
  clock :: nat
  urljoin :: "string \<Rightarrow> string \<Rightarrow> string"
  unquote_normpath :: "string \<Rightarrow> string"
  url_quote :: "string \<Rightarrow> string"
  searx_results :: "string \<Rightarrow> string \<Rightarrow> string option \<Rightarrow> error + search_hit list"
  choose_download_path :: "string \<Rightarrow> string \<Rightarrow> error + string"
  write_download :: "string \<Rightarrow> response \<Rightarrow> error option"

subsection \<open>The converters\<close>

definition gated :: "world \<Rightarrow> converter \<Rightarrow> string list \<Rightarrow> string \<Rightarrow> kwargs
    \<Rightarrow> error + document_converter_result option" where
  \<comment> \<open>the gate every format converter starts with:
      \<open>extension = kwargs.get("file_extension", ""); if extension.lower() not in [...]: return None\<close>,
      then the library's work.\<close>
  "gated w c exts local_path kw =
     (case kw_get_or [] (kw_file_extension kw) of
        None \<Rightarrow> Inl (AttributeError ''lower'')
      | Some extension \<Rightarrow>
          if \<not> List.member exts (lower extension) then Inr None
          else (case library_convert w c local_path kw of
                  Inl e \<Rightarrow> Inl e
                | Inr res \<Rightarrow> Inr (Some res)))"

fun converter_convert :: "world \<Rightarrow> converter \<Rightarrow> string \<Rightarrow> kwargs
    \<Rightarrow> error + document_converter_result option" where
  "converter_convert w PlainTextConverter local_path kw =
     (let extension = kw_get_or [] (kw_file_extension kw) in
      if extension = Some [] then Inr None
      else (case read_text w local_path (kw_get_or ''utf-8'' (kw_encoding kw)) of
              Inl e \<Rightarrow> Inl e
            | Inr text \<Rightarrow> Inr (Some \<lparr>title = None, text_content = text\<rparr>)))"
| "converter_convert w HtmlConverter local_path kw =
     gated w HtmlConverter [''.html'', ''.htm''] local_path kw"
| "converter_convert w YouTubeConverter local_path kw =
     (case kw_get_or [] (kw_file_extension kw) of
        None \<Rightarrow> Inl (AttributeError ''lower'')
      | Some extension \<Rightarrow>
          if \<not> List.member [''.html'', ''.htm''] (lower extension) then Inr None
          else (case kw_get_or [] (kw_url kw) of
                  None \<Rightarrow> Inl (AttributeError ''startswith'')
                | Some u \<Rightarrow>
                    if \<not> startswith u ''https://www.youtube.com/watch?'' then Inr None
                    else (case library_convert w YouTubeConverter local_path kw of
                            Inl e \<Rightarrow> Inl e
                          | Inr res \<Rightarrow> Inr (Some res))))"
| "converter_convert w PdfConverter local_path kw = gated w PdfConverter [''.pdf''] local_path kw"
| "converter_convert w DocxConverter local_path kw = gated w DocxConverter [''.docx''] local_path kw"
| "converter_convert w XlsxConverter local_path kw =
     gated w XlsxConverter [''.xlsx'', ''.xls''] local_path kw"
| "converter_convert w XmlConverter local_path kw = gated w XmlConverter [''.xml''] local_path kw"
| "converter_convert w PptxConverter local_path kw = gated w PptxConverter [''.pptx''] local_path kw"
| "converter_convert w AudioConverter local_path kw =
     gated w AudioConverter [''.wav'', ''.mp3'', ''.flac'', ''.m4a''] local_path kw"

subsection \<open>MarkdownConverter\<close>

definition page_converters :: "converter list" where
  \<comment> \<open>\<open>self._page_converters\<close> after \<open>__init__\<close>, in registration order\<close>
  "page_converters =
     [XmlConverter, YouTubeConverter, DocxConverter, XlsxConverter, PptxConverter,
      PdfConverter, AudioConverter, HtmlConverter, PlainTextConverter]"

definition normalize_content :: "string \<Rightarrow> string" where
  \<comment> \<open>the two assignments to \<open>res.text_content\<close> in \<open>_convert\<close>\<close>
  "normalize_content text = re_sub_newlines (join [NL] (map rstrip (re_split_lines text)))"

fun try_converters :: "world \<Rightarrow> string \<Rightarrow> kwargs \<Rightarrow> string \<Rightarrow> converter list \<Rightarrow> string
    \<Rightarrow> document_converter_result option \<times> string" where
  \<comment> \<open>the inner loop of \<open>_convert\<close> for one extension: the result returned from inside the
      loop if there is one, and \<open>error_trace\<close> as the loop leaves it.\<close>
  "try_converters w local_path kw ext [] error_trace = (None, error_trace)"
| "try_converters w local_path kw ext (c # cs) error_trace =
     (case converter_convert w c local_path (kw\<lparr>kw_file_extension := Given ext\<rparr>) of
        Inr (Some res) \<Rightarrow> (Some (res\<lparr>text_content := normalize_content (text_content res)\<rparr>), error_trace)
      | Inr None \<Rightarrow> try_converters w local_path kw ext cs error_trace
      | Inl e \<Rightarrow> try_converters w local_path kw ext cs (strip ([NL, NL] @ format_exc e)))"

fun try_extensions :: "world \<Rightarrow> string \<Rightarrow> kwargs \<Rightarrow> string list \<Rightarrow> string
    \<Rightarrow> document_converter_result option \<times> string" where
  \<comment> \<open>the outer loop of \<open>_convert\<close>\<close>
  "try_extensions w local_path kw [] error_trace = (None, error_trace)"
| "try_extensions w local_path kw (ext # exts) error_trace =
     (case try_converters w local_path kw ext page_converters error_trace of
        (Some res, tr) \<Rightarrow> (Some res, tr)
      | (None, tr) \<Rightarrow> try_extensions w local_path kw exts tr)"

definition u_convert :: "world \<Rightarrow> string \<Rightarrow> string list \<Rightarrow> kwargs
    \<Rightarrow> error + document_converter_result option" where
  \<comment> \<open>\<open>MarkdownConverter._convert\<close>\<close>
  "u_convert w local_path extensions kw =
     (case try_extensions w local_path kw extensions [] of
        (Some res, tr) \<Rightarrow> Inr (Some res)
      | (None, error_trace) \<Rightarrow>
          if length error_trace > 0
          then Inl (FileConversionException local_path extensions error_trace)
          else converter_convert w PlainTextConverter local_path kw)"

definition u_append_ext :: "string list \<Rightarrow> string option \<Rightarrow> string list" where
  \<comment> \<open>\<open>_append_ext\<close>: the list after the call\<close>
  "u_append_ext extensions ext =
     (case ext of
        None \<Rightarrow> extensions
      | Some e \<Rightarrow> if strip e = [] then extensions else extensions @ [strip e])"

definition u_guess_ext_magic :: "world \<Rightarrow> string \<Rightarrow> error + string option" where
  "u_guess_ext_magic w path =
     (case magic_file w path of
        Inr guesses \<Rightarrow>
          (if length guesses > 0
           then (let ext = strip (hd guesses) in if length ext > 0 then Inr (Some ext) else Inr None)
           else Inr None)
      | Inl (FileNotFoundError m) \<Rightarrow> Inr None
      | Inl (IsADirectoryError m) \<Rightarrow> Inr None
      | Inl (PermissionError m) \<Rightarrow> Inr None
      | Inl e \<Rightarrow> Inl e)"

definition local_extensions :: "world \<Rightarrow> string \<Rightarrow> kwargs \<Rightarrow> error + string list" where
  \<comment> \<open>\<open>convert_local\<close> up to its comment \<open># Convert\<close>: the list \<open>extensions\<close>\<close>
  "local_extensions w path kw =
     (let ext = kw_get (kw_file_extension kw);
          extensions = (case ext of Some e \<Rightarrow> [e] | None \<Rightarrow> []);
          extensions = u_append_ext extensions (Some (snd (splitext path)))
      in case u_guess_ext_magic w path of
           Inl e \<Rightarrow> Inl e
         | Inr guess \<Rightarrow> Inr (u_append_ext extensions guess))"

definition convert_local :: "world \<Rightarrow> string \<Rightarrow> kwargs \<Rightarrow> error + document_converter_result option" where
  "convert_local w path kw =
     (case local_extensions w path kw of
        Inl e \<Rightarrow> Inl e
      | Inr extensions \<Rightarrow> u_convert w path extensions kw)"

definition header_extensions :: "world \<Rightarrow> response \<Rightarrow> kwargs \<Rightarrow> string list" where
  \<comment> \<open>\<open>convert_response\<close> up to the download: the list \<open>extensions\<close> before the magic guess\<close>
  "header_extensions w resp kw =
     (let ext = kw_get (kw_file_extension kw);
          extensions = (case ext of Some e \<Rightarrow> [e] | None \<Rightarrow> []);
          content_type = takeWhile (\<lambda>c. c \<noteq> CHR '';'')
                           (case resp_content_type resp of None \<Rightarrow> [] | Some h \<Rightarrow> h);
          extensions = u_append_ext extensions (guess_extension w content_type);
          content_disposition = (case resp_content_disposition resp of None \<Rightarrow> [] | Some h \<Rightarrow> h);
          extensions =
            (case find_filename content_disposition of
               Some m \<Rightarrow> u_append_ext extensions (Some (snd (splitext (strip_chars [CHR 0x22, CHR 0x27] m))))
             | None \<Rightarrow> extensions)
      in u_append_ext extensions (Some (snd (splitext (urlparse_path w (resp_url resp))))))"

definition response_extensions :: "world \<Rightarrow> response \<Rightarrow> kwargs \<Rightarrow> error + string list" where
  \<comment> \<open>\<open>convert_response\<close> up to its comment \<open># Convert\<close>: the download into the temporary
      file can raise, and so can the magic guess.\<close>
  "response_extensions w resp kw =
     (case resp_iter_content resp of
        Inl e \<Rightarrow> Inl e
      | Inr body \<Rightarrow>
          (case u_guess_ext_magic w (resp_temp_path resp) of
             Inl e \<Rightarrow> Inl e
           | Inr guess \<Rightarrow> Inr (u_append_ext (header_extensions w resp kw) guess)))"

definition convert_response :: "world \<Rightarrow> response \<Rightarrow> kwargs \<Rightarrow> error + document_converter_result option" where
  \<comment> \<open>the temporary file is removed on every path (\<open>finally\<close>); the model keeps no file system
      state, so that step leaves no trace here.\<close>
  "convert_response w resp kw =
     (case response_extensions w resp kw of
        Inl e \<Rightarrow> Inl e
      | Inr extensions \<Rightarrow>
          u_convert w (resp_temp_path resp) extensions
            \<lparr>kw_file_extension = Absent,
             kw_encoding = (case resp_encoding resp of None \<Rightarrow> PyNone | Some enc \<Rightarrow> Given enc),
             kw_url = Given (resp_url resp)\<rparr>)"

definition raise_for_status :: "response \<Rightarrow> error option" where
  \<comment> \<open>\<open>response.raise_for_status()\<close>: an HTTPError, a RequestException, for a 4xx or 5xx status\<close>
  "raise_for_status resp =
     (if 400 \<le> resp_status_code resp \<and> resp_status_code resp < 600
      then Some (RequestException (str_of_nat (resp_status_code resp) @ '' Error for url: '' @ resp_url resp))
      else None)"

definition convert_url :: "world \<Rightarrow> string \<Rightarrow> kwargs \<Rightarrow> error + document_converter_result option" where
  "convert_url w u kw =
     (case session_get w u of
        Inl e \<Rightarrow> Inl e
      | Inr resp \<Rightarrow>
          (case raise_for_status resp of
             Some e \<Rightarrow> Inl e
           | None \<Rightarrow> convert_response w resp kw))"

text \<open>What \<open>convert\<close> can be called with: a string, a response, or any other object.\<close>

datatype pyobject = PyInt int | PyBytes string | PyNoneObject | PyList "pyobject list"

datatype source = SourceStr string | SourceResponse response | SourceOther pyobject

definition convert :: "world \<Rightarrow> source \<Rightarrow> kwargs \<Rightarrow> error + document_converter_result option" where
  \<comment> \<open>\<open>MarkdownConverter.convert\<close>: no branch for the third kind, the function ends and
      returns None.\<close>
  "convert w src kw =
     (case src of
        SourceStr s \<Rightarrow>
          if startswith s ''http://'' \<or> startswith s ''https://'' \<or> startswith s ''file://''
          then convert_url w s kw
          else convert_local w s kw
      | SourceResponse resp \<Rightarrow> convert_response w resp kw
      | SourceOther x \<Rightarrow> Inr None)"

section \<open>Browser.py\<close>

subsection \<open>Statements as state transformers\<close>

text \<open>
  A method of the browser is a function from the object's state to an outcome: \<open>None\<close> when
  the call never returns, else the value returned or the exception raised, together with
  the state the object is left in.
\<close>

type_synonym ('s, 'a) prog = "'s \<Rightarrow> ((error + 'a) \<times> 's) option"

definition py_return :: "'a \<Rightarrow> ('s, 'a) prog" where
  "py_return x = (\<lambda>s. Some (Inr x, s))"

definition py_raise :: "error \<Rightarrow> ('s, 'a) prog" where
  "py_raise e = (\<lambda>s. Some (Inl e, s))"

definition py_lift :: "error + 'a \<Rightarrow> ('s, 'a) prog" where
  \<comment> \<open>a call that does not touch the state\<close>
  "py_lift r = (\<lambda>s. Some (r, s))"

definition py_gets :: "('s \<Rightarrow> 'a) \<Rightarrow> ('s, 'a) prog" where
  "py_gets f = (\<lambda>s. Some (Inr (f s), s))"

definition py_modify :: "('s \<Rightarrow> 's) \<Rightarrow> ('s, unit) prog" where
  "py_modify f = (\<lambda>s. Some (Inr (), f s))"

definition py_bind :: "('s, 'a) prog \<Rightarrow> ('a \<Rightarrow> ('s, 'b) prog) \<Rightarrow> ('s, 'b) prog" where
  "py_bind m f =
     (\<lambda>s. case m s of
             None \<Rightarrow> None
           | Some (Inl e, s') \<Rightarrow> Some (Inl e, s')
           | Some (Inr x, s') \<Rightarrow> f x s')"

definition py_seq :: "('s, unit) prog \<Rightarrow> ('s, 'b) prog \<Rightarrow> ('s, 'b) prog" where
  "py_seq m n = py_bind m (\<lambda>_. n)"

definition py_try :: "('s, 'a) prog \<Rightarrow> (error \<Rightarrow> ('s, 'a) prog) \<Rightarrow> ('s, 'a) prog" where
  \<comment> \<open>\<open>try: m  except ... as e: h e\<close>; the handler re-raises what its clauses do not name.\<close>
  "py_try m h =
     (\<lambda>s. case m s of
             None \<Rightarrow> None
           | Some (Inl e, s') \<Rightarrow> h e s'
           | Some (Inr x, s') \<Rightarrow> Some (Inr x, s'))"

subsection \<open>The browser's state\<close>

text \<open>
  The attributes of a \<open>SimpleTextBrowser\<close>. A leading underscore of the source is written
  \<open>u_\<close>. \<open>searxng_url\<close>, \<open>has_request_kwargs\<close> and \<open>has_mdconvert\<close> record whether
  \<open>__init__\<close> has assigned \<open>self.searxng_url\<close>, \<open>self.request_kwargs\<close> and
  \<open>self._mdconvert\<close> yet: it calls \<open>set_address\<close> before it does, and reading a missing
  attribute raises AttributeError. \<open>find_on_page_query\<close> and \<open>find_on_page_viewport\<close>
  are the two attributes \<open>set_address\<close> assigns; \<open>u_find_on_page_query\<close> and
  \<open>u_find_on_page_last_result\<close> are the two that \<open>find_on_page\<close> and \<open>find_next\<close> use.
  A history entry's time stamp is a reading of the world's clock.
\<close>

record browser =
  start_page :: string
  viewport_size :: int
  downloads_folder :: "string option"
  history :: "(string \<times> nat) list"
  page_title :: "string option"
  viewport_current_page :: int
  viewport_pages :: "(int \<times> int) list"
  searxng_url :: "string option"
  has_request_kwargs :: bool
  has_mdconvert :: bool
  u_page_content :: string
  u_find_on_page_query :: "string option"
  u_find_on_page_last_result :: "int option"
  find_on_page_query :: "string option"
  find_on_page_viewport :: "int option"

subsection \<open>Viewports\<close>

definition address :: "(browser, string) prog" where
  \<comment> \<open>\<open>self.history[-1][0]\<close>\<close>
  "address =
     py_bind (py_gets history) (\<lambda>h.
       case py_index h (- 1) of
         None \<Rightarrow> py_raise IndexError
       | Some entry \<Rightarrow> py_return (fst entry))"

definition viewport :: "(browser, string) prog" where
  "viewport =
     py_bind (py_gets (\<lambda>s. py_index (viewport_pages s) (viewport_current_page s))) (\<lambda>b.
       case b of
         None \<Rightarrow> py_raise IndexError
       | Some bounds \<Rightarrow> py_gets (\<lambda>s. py_slice (u_page_content s) (fst bounds) (snd bounds)))"

function adjust_end :: "string \<Rightarrow> int \<Rightarrow> error + int" where
  \<comment> \<open>the inner loop of \<open>_split_pages\<close>, "Adjust to end on a space"\<close>
  "adjust_end content end_idx =
     (if end_idx < int (length content) then
        (case py_index content (end_idx - 1) of
           None \<Rightarrow> Inl IndexError
         | Some c \<Rightarrow>
             if \<not> List.member [CHR '' '', TAB, CR, NL] c
             then adjust_end content (end_idx + 1)
             else Inr end_idx)
      else Inr end_idx)"
  by pat_completeness auto
termination
  by (relation "measure (\<lambda>(content, end_idx). nat (int (length content) - end_idx))") auto

text \<open>
  The outer loop of \<open>_split_pages\<close>: \<open>start_idx\<close> need not grow when \<open>viewport_size\<close> is
  not positive, so the loop may run forever; then the result is \<open>None\<close>. A result holds the
  exception raised, if any, and \<open>self.viewport_pages\<close> as the loop leaves it.
\<close>

partial_function (option) split_loop ::
  "int \<Rightarrow> string \<Rightarrow> int \<Rightarrow> (int \<times> int) list \<Rightarrow> (error option \<times> (int \<times> int) list) option" where
  "split_loop vsize content start_idx pages =
     (if start_idx < int (length content) then
        (case adjust_end content (min (start_idx + vsize) (int (length content))) of
           Inl e \<Rightarrow> Some (Some e, pages)
         | Inr end_idx \<Rightarrow> split_loop vsize content end_idx (pages @ [(start_idx, end_idx)]))
      else Some (None, pages))"

declare split_loop.simps [code]

definition u_split_pages :: "(browser, unit) prog" where
  "u_split_pages =
     py_bind address (\<lambda>a.
       if startswith a ''google:''
       then py_modify (\<lambda>s. s\<lparr>viewport_pages := [(0, int (length (u_page_content s)))]\<rparr>)
       else
         py_bind (py_gets u_page_content) (\<lambda>content.
           if length content = 0
           then py_modify (\<lambda>s. s\<lparr>viewport_pages := [(0, 0)]\<rparr>)
           else (\<lambda>s. case split_loop (viewport_size s) content 0 [] of
                        None \<Rightarrow> None
                      | Some (None, pages) \<Rightarrow> Some (Inr (), s\<lparr>viewport_pages := pages\<rparr>)
                      | Some (Some e, pages) \<Rightarrow> Some (Inl e, s\<lparr>viewport_pages := pages\<rparr>))))"

definition u_set_page_content :: "string \<Rightarrow> (browser, unit) prog" where
  "u_set_page_content content =
     py_seq (py_modify (\<lambda>s. s\<lparr>u_page_content := content\<rparr>))
    (py_seq u_split_pages
       (py_modify (\<lambda>s.
          if viewport_current_page s \<ge> int (length (viewport_pages s))
          then s\<lparr>viewport_current_page := int (length (viewport_pages s)) - 1\<rparr>
          else s)))"

definition page_down :: "(browser, unit) prog" where
  "page_down =
     py_modify (\<lambda>s. s\<lparr>viewport_current_page :=
                        min (viewport_current_page s + 1) (int (length (viewport_pages s)) - 1)\<rparr>)"


subsection \<open>Find on page\<close>

definition normalize_query :: "string \<Rightarrow> string" where
  \<comment> \<open>the assignments to \<open>nquery\<close> in \<open>_find_next_viewport\<close>\<close>
  "normalize_query query =
     (let nquery = replace query ''*'' ''__STAR__'';
          nquery = '' '' @ strip (join '' '' (re_split_nonword nquery)) @ '' '';
          nquery = replace nquery '' __STAR__ '' ''__STAR__ ''
      in lower (replace nquery ''__STAR__'' ''.*''))"

definition viewport_matches :: "string \<Rightarrow> string \<Rightarrow> bool" where
  \<comment> \<open>the body of the loop over \<open>idxs\<close>: format the content, then \<open>re.search\<close>\<close>
  "viewport_matches nquery content =
     (let ncontent = '' '' @ lower (strip (join '' '' (re_split_nonword content))) @ '' ''
      in re_search nquery ncontent)"

fun search_idxs :: "string \<Rightarrow> string \<Rightarrow> (int \<times> int) list \<Rightarrow> int list \<Rightarrow> error + int option" where
  \<comment> \<open>\<open>for i in idxs: ...\<close>\<close>
  "search_idxs nquery page pages [] = Inr None"
| "search_idxs nquery page pages (i # idxs) =
     (case py_index pages i of
        None \<Rightarrow> Inl IndexError
      | Some bounds \<Rightarrow>
          if viewport_matches nquery (py_slice page (fst bounds) (snd bounds))
          then Inr (Some i)
          else search_idxs nquery page pages idxs)"

definition u_find_next_viewport :: "string option \<Rightarrow> int \<Rightarrow> (browser, int option) prog" where
  "u_find_next_viewport query starting_viewport =
     (case query of
        None \<Rightarrow> py_return None
      | Some q \<Rightarrow>
          if strip (normalize_query q) = [] then py_return None
          else
            py_bind (py_gets id) (\<lambda>s.
              py_lift (search_idxs (normalize_query q) (u_page_content s) (viewport_pages s)
                         (py_range starting_viewport (int (length (viewport_pages s)))
                            @ py_range 0 starting_viewport))))"

definition goto_match :: "int option \<Rightarrow> (browser, string option) prog" where
  \<comment> \<open>the common tail of \<open>find_on_page\<close> and \<open>find_next\<close>: \<open>if viewport_match is None: ... else: ...\<close>\<close>
  "goto_match viewport_match =
     (case viewport_match of
        None \<Rightarrow> py_seq (py_modify (\<lambda>s. s\<lparr>u_find_on_page_last_result := None\<rparr>)) (py_return None)
      | Some m \<Rightarrow>
          py_seq (py_modify (\<lambda>s. s\<lparr>viewport_current_page := m, u_find_on_page_last_result := Some m\<rparr>))
            (py_bind viewport (\<lambda>text. py_return (Some text))))"

definition find_next :: "(browser, string option) prog" where
  "find_next =
     py_bind (py_gets id) (\<lambda>s.
       case u_find_on_page_query s of
         None \<Rightarrow> py_return None
       | Some q \<Rightarrow>
           (let starting_viewport =
                  (case u_find_on_page_last_result s of
                     None \<Rightarrow> 0
                   | Some r \<Rightarrow> if r + 1 \<ge> int (length (viewport_pages s)) then 0 else r + 1)
            in py_bind (u_find_next_viewport (Some q) starting_viewport) goto_match))"

definition find_on_page :: "string \<Rightarrow> (browser, string option) prog" where
  "find_on_page query =
     py_bind (py_gets id) (\<lambda>s.
       if Some query = u_find_on_page_query s
          \<and> Some (viewport_current_page s) = u_find_on_page_last_result s
       then find_next
       else
         py_seq (py_modify (\<lambda>s. s\<lparr>u_find_on_page_query := Some query\<rparr>))
           (py_bind (u_find_next_viewport (Some query) (viewport_current_page s)) goto_match))"

subsection \<open>Search results\<close>

definition prev_visit :: "world \<Rightarrow> (string \<times> nat) list \<Rightarrow> string \<Rightarrow> string" where
  \<comment> \<open>\<open>_prev_visit\<close>: the latest history entry with this address, if any\<close>
  "prev_visit w h u =
     (case filter (\<lambda>entry. fst entry = u) (rev h) of
        [] \<Rightarrow> []
      | entry # _ \<Rightarrow>
          ''You previously visited this page ''
            @ str_of_int (int (clock w) - int (snd entry)) @ '' seconds ago.'' @ [NL])"

fun web_snippets :: "world \<Rightarrow> (string \<times> nat) list \<Rightarrow> nat \<Rightarrow> search_hit list \<Rightarrow> string list" where
  \<comment> \<open>\<open>for page in results["results"]: ...\<close>, from the counter \<open>idx\<close> on\<close>
  "web_snippets w h idx [] = []"
| "web_snippets w h idx (page # pages) =
     (let date_published =
            (if hit_publishedDate page \<noteq> [] then [NL] @ ''Date published: '' @ hit_publishedDate page
             else []);
          snippet = (if hit_content page \<noteq> [] then [NL] @ hit_content page else []);
          redacted_version =
            str_of_nat (idx + 1) @ ''. ['' @ hit_title page @ '']('' @ hit_url page @ '')''
              @ date_published @ [NL] @ prev_visit w h (hit_url page) @ snippet
      in replace redacted_version (''Your browser can'' @ [CHR 0x27] @ ''t play this video.'') []
           # web_snippets w h (idx + 1) pages)"

definition year_filter_message :: "int option \<Rightarrow> string" where
  "year_filter_message filter_year =
     (case filter_year of None \<Rightarrow> [] | Some y \<Rightarrow> '' with filter year='' @ str_of_int y)"

definition results_content :: "world \<Rightarrow> (string \<times> nat) list \<Rightarrow> string \<Rightarrow> int option \<Rightarrow> bool
    \<Rightarrow> search_hit list \<Rightarrow> string" where
  \<comment> \<open>the page text \<open>_searxng_search\<close> builds from a non-empty result list\<close>
  "results_content w h query filter_year retry results =
     (let snippets = web_snippets w h 0 results;
          content = ''A search for '' @ repr_str query @ '' found '' @ str_of_nat (length snippets)
                      @ '' results:'' @ [NL, NL] @ ''## Web Results'' @ [NL] @ join [NL, NL] snippets
      in if retry
         then ''No result were found for filtering year: ''
                @ (case filter_year of None \<Rightarrow> ''None'' | Some y \<Rightarrow> str_of_int y) @ ''.'' @ [NL]
                @ ''REMOVED YEAR FILTER.'' @ [NL, NL]
                @ ''The following results can be of any year.'' @ [NL, NL] @ content @ [NL]
         else content)"

function u_searxng_search :: "world \<Rightarrow> string \<Rightarrow> int option \<Rightarrow> bool \<Rightarrow> (browser, unit) prog" where
  "u_searxng_search w query filter_year retry st =
     py_try
       (py_bind (py_gets searxng_url) (\<lambda>base.
          case base of
            None \<Rightarrow> py_raise (AttributeError ''searxng_url'')
          | Some b \<Rightarrow>
              py_bind (py_gets has_request_kwargs) (\<lambda>hk.
                if \<not> hk then py_raise (AttributeError ''request_kwargs'')
                else
                  py_bind (py_lift (searx_results w (b @ ''/search'') query
                             (case filter_year of
                                None \<Rightarrow> None
                              | Some y \<Rightarrow> if \<not> retry then Some (str_of_int y @ ''-'' @ str_of_int y)
                                          else None))) (\<lambda>results.
                    py_seq (py_modify (\<lambda>s. s\<lparr>page_title := Some (query @ '' - Search'')\<rparr>))
                      (if length results = 0 then
                         (if \<not> retry \<and> filter_year \<noteq> None
                          then u_searxng_search w query filter_year True
                          else if retry
                          then u_set_page_content
                                 (''No results found for '' @ repr_str query
                                    @ year_filter_message filter_year
                                    @ ''. Already searched removing year limitation, but No result found. Try with a more general query.'')
                          else u_set_page_content
                                 (''No results found for '' @ repr_str query
                                    @ year_filter_message filter_year
                                    @ ''. Try with a more general query, or remove the year filter.''))
                       else
                         py_bind (py_gets history) (\<lambda>h.
                           u_set_page_content (results_content w h query filter_year retry results)))))))
       (\<lambda>e. py_seq (py_modify (\<lambda>s. s\<lparr>page_title := Some ''Search Error''\<rparr>))
              (case e of
                 RequestException m \<Rightarrow>
                   py_bind (py_gets searxng_url) (\<lambda>base.
                     case base of
                       None \<Rightarrow> py_raise (AttributeError ''searxng_url'')
                     | Some b \<Rightarrow>
                         u_set_page_content
                           (''## Search Error'' @ [NL, NL] @ ''Failed to search using SearxNG: '' @ m
                              @ [NL, NL] @ ''Please check your SearxNG instance URL: '' @ b))
               | _ \<Rightarrow>
                   u_set_page_content
                     (''## Search Error'' @ [NL, NL] @ ''Unexpected error during search: ''
                        @ str_of_error e)))
       st"
  by pat_completeness auto
termination
  by (relation "measure (\<lambda>(w, query, filter_year, retry, st). if retry then 0 else 1)") auto

subsection \<open>Fetching a page\<close>

text \<open>
  The local variables of \<open>_fetch_page\<close> that its \<open>except\<close> clauses read. \<open>download_path\<close>
  is the empty string at first, None or a path later; \<open>response\<close> is unbound (\<open>None\<close> here)
  until \<open>requests.get\<close> has returned.
\<close>

record fetch_locals =
  download_path :: "string option"
  response :: "response option"

definition in_browser :: "(browser, 'a) prog \<Rightarrow> (fetch_locals \<times> browser, 'a) prog" where
  \<comment> \<open>a statement on \<open>self\<close> inside \<open>_fetch_page\<close>\<close>
  "in_browser m =
     (\<lambda>(l, s). case m s of None \<Rightarrow> None | Some (r, s') \<Rightarrow> Some (r, (l, s')))"

definition with_locals :: "fetch_locals \<Rightarrow> (fetch_locals \<times> browser, 'a) prog \<Rightarrow> (browser, 'a) prog" where
  "with_locals l m =
     (\<lambda>s. case m (l, s) of None \<Rightarrow> None | Some (r, (l', s')) \<Rightarrow> Some (r, s'))"

definition set_local :: "(fetch_locals \<Rightarrow> fetch_locals) \<Rightarrow> (fetch_locals \<times> browser, unit) prog" where
  "set_local f = py_modify (\<lambda>(l, s). (f l, s))"

definition as_uri :: "world \<Rightarrow> string \<Rightarrow> string" where
  \<comment> \<open>\<open>pathlib.Path(p).as_uri()\<close> for an absolute path\<close>
  "as_uri w p = ''file://'' @ url_quote w p"

definition show_result :: "document_converter_result option \<Rightarrow> (browser, unit) prog" where
  \<comment> \<open>\<open>self.page_title = res.title; self._set_page_content(res.text_content)\<close>: a result
      that is None has no attribute \<open>title\<close>.\<close>
  "show_result res =
     (case res of
        None \<Rightarrow> py_raise (AttributeError ''title'')
      | Some r \<Rightarrow>
          py_seq (py_modify (\<lambda>s. s\<lparr>page_title := title r\<rparr>)) (u_set_page_content (text_content r)))"

definition mdconvert :: "(error + 'a) \<Rightarrow> (browser, 'a) prog" where
  \<comment> \<open>a call of a method of \<open>self._mdconvert\<close>: the attribute has to exist\<close>
  "mdconvert call =
     py_bind (py_gets has_mdconvert) (\<lambda>has.
       if \<not> has then py_raise (AttributeError ''_mdconvert'') else py_lift call)"

definition download_or_error :: "fetch_locals \<Rightarrow> error \<Rightarrow> (browser, unit) prog" where
  \<comment> \<open>the body of the clauses for UnsupportedFormatException and FileConversionException;
      the title assigned in the first branch is a one-element tuple in the source.\<close>
  "download_or_error l e =
     (if download_path l \<noteq> None \<and> download_path l \<noteq> Some []
      then py_seq (py_modify (\<lambda>s. s\<lparr>page_title := Some ''Download complete.''\<rparr>))
             (u_set_page_content
                (''# Download complete'' @ [NL, NL] @ ''Saved file to ''
                   @ repr_str (the (download_path l))))
      else py_seq (py_modify (\<lambda>s. s\<lparr>page_title := Some ''Error''\<rparr>))
             (u_set_page_content (''## Error: '' @ str_of_error e)))"

definition request_error_page :: "world \<Rightarrow> fetch_locals \<Rightarrow> error \<Rightarrow> (browser, unit) prog" where
  \<comment> \<open>the body of the clause for RequestException. When the response has no encoding,
      the chunks of \<open>iter_content(decode_unicode=True)\<close> are bytes and \<open>text += chunk\<close>
      raises TypeError at the first of them; the inner \<open>except NameError\<close> lets it through.\<close>
  "request_error_page w l request_exception =
     py_try
       (case response l of
          None \<Rightarrow> py_raise (NameError ''response'')
        | Some resp \<Rightarrow>
            (let status = str_of_nat (resp_status_code resp) in
             py_seq (py_modify (\<lambda>s. s\<lparr>page_title := Some (''Error '' @ status)\<rparr>))
               (if contains (lower (case resp_content_type resp of None \<Rightarrow> [] | Some h \<Rightarrow> h)) ''text/html''
                then
                  py_bind (mdconvert (convert w (SourceResponse resp) no_kwargs)) (\<lambda>res.
                    case res of
                      None \<Rightarrow> py_raise (AttributeError ''text_content'')
                    | Some r \<Rightarrow>
                        py_seq (py_modify (\<lambda>s. s\<lparr>page_title := Some (''Error '' @ status)\<rparr>))
                          (u_set_page_content (''## Error '' @ status @ [NL, NL] @ text_content r)))
                else
                  py_bind (py_lift (resp_iter_content resp)) (\<lambda>body.
                    if resp_encoding resp = None \<and> body \<noteq> []
                    then py_raise (TypeError ''can only concatenate str (not bytes) to str'')
                    else
                      py_seq (py_modify (\<lambda>s. s\<lparr>page_title := Some (''Error '' @ status)\<rparr>))
                        (u_set_page_content (''## Error '' @ status @ [NL, NL] @ body))))))
       (\<lambda>e. case e of
              NameError m \<Rightarrow>
                py_seq (py_modify (\<lambda>s. s\<lparr>page_title := Some ''Error''\<rparr>))
                  (u_set_page_content (''## Error'' @ [NL, NL] @ str_of_error request_exception))
            | _ \<Rightarrow> py_raise e)"

definition fetch_except :: "world \<Rightarrow> fetch_locals \<Rightarrow> error \<Rightarrow> (browser, unit) prog" where
  \<comment> \<open>the \<open>except\<close> clauses of \<open>_fetch_page\<close>; any other exception goes on to the caller.\<close>
  "fetch_except w l e =
     (case e of
        UnsupportedFormatException m \<Rightarrow> download_or_error l e
      | FileConversionException p exts tr \<Rightarrow> download_or_error l e
      | FileNotFoundError m \<Rightarrow>
          py_seq (py_modify (\<lambda>s. s\<lparr>page_title := Some ''Error 404''\<rparr>))
            (u_set_page_content
               (''## Error 404'' @ [NL, NL] @ ''File not found: ''
                  @ (case download_path l of None \<Rightarrow> ''None'' | Some p \<Rightarrow> p)))
      | RequestException m \<Rightarrow> request_error_page w l e
      | _ \<Rightarrow> py_raise e)"

text \<open>
  \<open>set_address\<close> and \<open>_fetch_page\<close> call each other: \<open>set_address\<close> fetches the page, and
  \<open>_fetch_page\<close>, after saving a download, calls \<open>self.set_address(local_uri)\<close> with the
  \<open>file://\<close> URI of the saved file. Each body is written once, with the other method as a
  parameter (\<open>fetch\<close>, \<open>nested\<close>).
\<close>

definition set_address_body :: "(string \<Rightarrow> (browser, unit) prog) \<Rightarrow> world \<Rightarrow> string \<Rightarrow> int option
    \<Rightarrow> (browser, unit) prog" where
  "set_address_body fetch w uri_or_path filter_year =
     py_seq (py_modify (\<lambda>s. s\<lparr>history := history s @ [(uri_or_path, clock w)]\<rparr>))
    (py_seq
       (if uri_or_path = ''about:blank'' then u_set_page_content []
        else if startswith uri_or_path ''google:''
        then u_searxng_search w (strip (drop (length ''google:'') uri_or_path)) filter_year False
        else
          py_bind (py_gets history) (\<lambda>h.
            if \<not> startswith uri_or_path ''http:'' \<and> \<not> startswith uri_or_path ''https:''
               \<and> \<not> startswith uri_or_path ''file:'' \<and> length h > 1
            then
              py_seq (py_modify (\<lambda>s. s\<lparr>history :=
                         butlast h @ [(urljoin w (fst (h ! (length h - 2))) uri_or_path, snd (last h))]\<rparr>))
                (fetch (urljoin w (fst (h ! (length h - 2))) uri_or_path))
            else fetch uri_or_path))
       (py_modify (\<lambda>s. s\<lparr>viewport_current_page := 0,
                          find_on_page_query := None,
                          find_on_page_viewport := None\<rparr>)))"

definition fetch_download :: "(string \<Rightarrow> (browser, unit) prog) \<Rightarrow> world \<Rightarrow> string \<Rightarrow> response
    \<Rightarrow> (fetch_locals \<times> browser, unit) prog" where
  \<comment> \<open>the branch "A download" of \<open>_fetch_page\<close>; \<open>os.path.join\<close> raises TypeError when
      \<open>self.downloads_folder\<close> is None.\<close>
  "fetch_download nested w url resp =
     py_seq (set_local (\<lambda>l. l\<lparr>download_path := None\<rparr>))
       (py_bind (in_browser (py_gets downloads_folder)) (\<lambda>folder.
          case folder of
            None \<Rightarrow> py_raise (TypeError ''expected str, bytes or os.PathLike object, not NoneType'')
          | Some d \<Rightarrow>
              py_bind (py_lift (choose_download_path w d url)) (\<lambda>p.
                py_seq (set_local (\<lambda>l. l\<lparr>download_path := Some p\<rparr>))
               (py_seq (py_lift (case write_download w p resp of Some e \<Rightarrow> Inl e | None \<Rightarrow> Inr ()))
                  (in_browser (nested (as_uri w p)))))))"

definition fetch_try :: "(string \<Rightarrow> (browser, unit) prog) \<Rightarrow> world \<Rightarrow> string
    \<Rightarrow> (fetch_locals \<times> browser, unit) prog" where
  \<comment> \<open>the \<open>try\<close> block of \<open>_fetch_page\<close>\<close>
  "fetch_try nested w url =
     (if startswith url ''file://'' then
        py_seq (set_local (\<lambda>l. l\<lparr>download_path := Some (unquote_normpath w (drop 7 url))\<rparr>))
          (in_browser
             (py_bind (mdconvert (convert_local w (unquote_normpath w (drop 7 url)) no_kwargs))
                show_result))
      else
        py_bind (in_browser (py_gets has_request_kwargs)) (\<lambda>has.
          if \<not> has then py_raise (AttributeError ''request_kwargs'')
          else
            py_bind (py_lift (requests_get w url)) (\<lambda>resp.
              py_seq (set_local (\<lambda>l. l\<lparr>response := Some resp\<rparr>))
             (py_seq (py_lift (case raise_for_status resp of Some e \<Rightarrow> Inl e | None \<Rightarrow> Inr ()))
                (if contains (lower (case resp_content_type resp of None \<Rightarrow> [] | Some h \<Rightarrow> h)) ''text/''
                 then in_browser (py_bind (mdconvert (convert_response w resp no_kwargs)) show_result)
                 else fetch_download nested w url resp)))))"

definition fetch_page_body :: "(string \<Rightarrow> (browser, unit) prog) \<Rightarrow> world \<Rightarrow> string
    \<Rightarrow> (browser, unit) prog" where
  "fetch_page_body nested w url =
     with_locals \<lparr>download_path = Some [], response = None\<rparr>
       (py_try (fetch_try nested w url)
          (\<lambda>e. py_bind (py_gets fst) (\<lambda>l. in_browser (fetch_except w l e))))"

text \<open>
  The recursion ends after one nested call: the nested address starts with \<open>file://\<close>, and
  the \<open>file://\<close> branch of \<open>_fetch_page\<close> calls \<open>set_address\<close> no more. So the innermost
  \<open>_fetch_page\<close> is given a nested call that is never made.
\<close>

definition set_address_local :: "world \<Rightarrow> string \<Rightarrow> (browser, unit) prog" where
  \<comment> \<open>\<open>self.set_address(local_uri)\<close> as called by \<open>_fetch_page\<close>\<close>
  "set_address_local w local_uri =
     set_address_body (fetch_page_body (\<lambda>uri s. None) w) w local_uri None"

definition u_fetch_page :: "world \<Rightarrow> string \<Rightarrow> (browser, unit) prog" where
  "u_fetch_page w url = fetch_page_body (set_address_local w) w url"

definition set_address :: "world \<Rightarrow> string \<Rightarrow> int option \<Rightarrow> (browser, unit) prog" where
  "set_address w uri_or_path filter_year = set_address_body (u_fetch_page w) w uri_or_path filter_year"

definition visit_page :: "world \<Rightarrow> string \<Rightarrow> int option \<Rightarrow> (browser, string) prog" where
  "visit_page w path_or_uri filter_year = py_seq (set_address w path_or_uri filter_year) viewport"

definition init :: "world \<Rightarrow> string option \<Rightarrow> int \<Rightarrow> string option \<Rightarrow> string option
    \<Rightarrow> (error + browser) option" where
  \<comment> \<open>\<open>SimpleTextBrowser.__init__\<close>: the object, or the exception the constructor raises\<close>
  "init w start_page_arg viewport_size_arg downloads_folder_arg searxng_url_arg =
     (let page = (case start_page_arg of
                    None \<Rightarrow> ''about:blank''
                  | Some p \<Rightarrow> if p \<noteq> [] then p else ''about:blank'');
          s0 = \<lparr>start_page = page,
                viewport_size = viewport_size_arg,
                downloads_folder = downloads_folder_arg,
                history = [],
                page_title = None,
                viewport_current_page = 0,
                viewport_pages = [],
                searxng_url = None,
                has_request_kwargs = False,
                has_mdconvert = False,
                u_page_content = [],
                u_find_on_page_query = None,
                u_find_on_page_last_result = None,
                find_on_page_query = None,
                find_on_page_viewport = None\<rparr>
      in case set_address w page None s0 of
           None \<Rightarrow> None
         | Some (Inl e, s1) \<Rightarrow> Some (Inl e)
         | Some (Inr u, s1) \<Rightarrow>
             Some (Inr (s1\<lparr>searxng_url :=
                              Some (case searxng_url_arg of
                                      None \<Rightarrow> ''https://searx.be''
                                    | Some u \<Rightarrow> if u \<noteq> [] then u else ''https://searx.be''),
                           has_request_kwargs := True,
                           has_mdconvert := True,
                           u_page_content := [],
                           u_find_on_page_query := None,
                           u_find_on_page_last_result := None\<rparr>)))"

section \<open>Example inputs\<close>

text \<open>
  A small world for the closed theorems below: four text files, no library that can parse
  anything, no magic guess, no network.
  \<^item> \<open>/docs/notes\<close> has no extension; its text has trailing blanks and four newlines in a row;
  \<^item> \<open>/docs/a.txt\<close> and \<open>/docs/b.txt\<close> are two pages that both hold the word \<open>needle\<close>;
  \<^item> \<open>/docs/report.pdf\<close> is a file that the PDF library rejects and that reads as text;
  \<^item> every other path is missing.
\<close>

definition example_world :: world where
  "example_world =
     \<lparr>read_text = (\<lambda>p enc.
         if p = ''/docs/notes'' then Inr (''a  '' @ [NL, NL, NL, NL] @ ''b'')
         else if p = ''/docs/a.txt'' then Inr ''needle one''
         else if p = ''/docs/b.txt'' then Inr ''other needle''
         else if p = ''/docs/report.pdf'' then Inr ''plain text''
         else Inl (FileNotFoundError p)),
      library_convert = (\<lambda>c p kw. Inl (OtherError ''cannot parse'')),
      magic_file = (\<lambda>p. Inr []),
      guess_extension = (\<lambda>t. if t = ''text/html'' then Some ''.html'' else None),
      urlparse_path = (\<lambda>u. if u = ''http://host/a.pdf'' then ''/a.pdf'' else []),
      session_get = (\<lambda>u. Inl (RequestException ''offline'')),
      requests_get = (\<lambda>u. Inl (RequestException ''offline'')),
      clock = 0,
      urljoin = (\<lambda>b u. u),
      unquote_normpath = (\<lambda>s. s),
      url_quote = (\<lambda>s. s),
      searx_results = (\<lambda>u q t. Inl (RequestException ''offline'')),
      choose_download_path = (\<lambda>d u. Inl (OtherError ''no folder'')),
      write_download = (\<lambda>p r. None)\<rparr>"

definition example_browser :: browser where
  \<comment> \<open>the browser \<open>SimpleTextBrowser()\<close> builds: see \<open>init_example\<close>\<close>
  "example_browser =
     \<lparr>start_page = ''about:blank'', viewport_size = 8192, downloads_folder = None,
      history = [(''about:blank'', 0)], page_title = None, viewport_current_page = 0,
      viewport_pages = [(0, 0)], searxng_url = Some ''https://searx.be'',
      has_request_kwargs = True, has_mdconvert = True, u_page_content = [],
      u_find_on_page_query = None, u_find_on_page_last_result = None,
      find_on_page_query = None, find_on_page_viewport = None\<rparr>"

definition example_response :: response where
  \<comment> \<open>an HTML response for an address that ends in \<open>.pdf\<close>, with that file name in its
      content-disposition header as well\<close>
  "example_response =
     \<lparr>resp_url = ''http://host/a.pdf'', resp_encoding = Some ''utf-8'', resp_status_code = 200,
      resp_content_type = Some ''text/html; charset=utf-8'',
      resp_content_disposition = Some (''attachment; filename='' @ [CHR 0x22] @ ''a.pdf'' @ [CHR 0x22]),
      resp_iter_content = Inr ''body'', resp_temp_path = ''/tmp/tmp1''\<rparr>"

section \<open>Where the candidate extensions come from\<close>

definition present :: "string option \<Rightarrow> string list" where
  \<comment> \<open>what one source adds to the list: nothing when it is None or blank, else its
      stripped value\<close>
  "present ext = (case ext of None \<Rightarrow> [] | Some e \<Rightarrow> if strip e = [] then [] else [strip e])"

definition explicit_extension :: "kwargs \<Rightarrow> string list" where
  \<comment> \<open>the caller's \<open>file_extension\<close>, taken as it is when it is not None\<close>
  "explicit_extension kw = (case kw_get (kw_file_extension kw) of None \<Rightarrow> [] | Some e \<Rightarrow> [e])"

definition content_type_extension :: "world \<Rightarrow> response \<Rightarrow> string option" where
  "content_type_extension w resp =
     guess_extension w
       (takeWhile (\<lambda>c. c \<noteq> CHR '';'') (case resp_content_type resp of None \<Rightarrow> [] | Some h \<Rightarrow> h))"

definition disposition_extension :: "response \<Rightarrow> string option" where
  "disposition_extension resp =
     (case find_filename (case resp_content_disposition resp of None \<Rightarrow> [] | Some h \<Rightarrow> h) of
        None \<Rightarrow> None
      | Some m \<Rightarrow> Some (snd (splitext (strip_chars [CHR 0x22, CHR 0x27] m))))"

definition url_path_extension :: "world \<Rightarrow> response \<Rightarrow> string option" where
  "url_path_extension w resp = Some (snd (splitext (urlparse_path w (resp_url resp))))"

definition claimed_order :: "string list \<Rightarrow> string option \<Rightarrow> string option \<Rightarrow> string option
    \<Rightarrow> string option \<Rightarrow> string list" where
  \<comment> \<open>the order of the specification: explicit extension, path, content-disposition,
      content-type, magic guess\<close>
  "claimed_order explicit path disposition content_type magic =
     explicit @ present path @ present disposition @ present content_type @ present magic"

lemma u_append_ext_present: "u_append_ext exts ext = exts @ present ext"
  by (simp add: u_append_ext_def present_def split: option.split)

lemma header_extensions_order:
  "header_extensions w resp kw =
     explicit_extension kw @ present (content_type_extension w resp)
       @ present (disposition_extension resp) @ present (url_path_extension w resp)"
  by (simp add: header_extensions_def explicit_extension_def content_type_extension_def
      disposition_extension_def url_path_extension_def u_append_ext_present Let_def present_def
      split: option.split)

text \<open>
  C5 (as amended). The list is built in the order of the calls in the code. For a
  response: the explicit extension, the content-type's, the content-disposition file
  name's, the URL path's, the magic guess. For a local path: the explicit extension, the
  path's, the magic guess. Nothing removes a duplicate.
\<close>

theorem candidate_extensions_order:
  "(response_extensions w resp kw = Inr exts \<longrightarrow>
      (\<exists>guess. u_guess_ext_magic w (resp_temp_path resp) = Inr guess
        \<and> exts = explicit_extension kw @ present (content_type_extension w resp)
                   @ present (disposition_extension resp) @ present (url_path_extension w resp)
                   @ present guess))
   \<and> (local_extensions w path kw = Inr exts' \<longrightarrow>
      (\<exists>guess. u_guess_ext_magic w path = Inr guess
        \<and> exts' = explicit_extension kw @ present (Some (snd (splitext path))) @ present guess))"
  by (auto simp: response_extensions_def local_extensions_def header_extensions_order
      u_append_ext_present explicit_extension_def Let_def split: sum.splits option.splits)

theorem candidate_extensions_order_witness:
  "response_extensions example_world example_response no_kwargs = Inr [''.html'', ''.pdf'', ''.pdf'']
   \<and> (\<exists>guess. u_guess_ext_magic example_world (resp_temp_path example_response) = Inr guess
        \<and> [''.html'', ''.pdf'', ''.pdf''] =
            explicit_extension no_kwargs @ present (content_type_extension example_world example_response)
              @ present (disposition_extension example_response)
              @ present (url_path_extension example_world example_response) @ present guess)
   \<and> local_extensions example_world ''/docs/report.pdf'' (no_kwargs\<lparr>kw_file_extension := Given ''.pdf''\<rparr>)
        = Inr [''.pdf'', ''.pdf'']
   \<and> (\<exists>guess. u_guess_ext_magic example_world ''/docs/report.pdf'' = Inr guess
        \<and> [''.pdf'', ''.pdf''] =
            explicit_extension (no_kwargs\<lparr>kw_file_extension := Given ''.pdf''\<rparr>)
              @ present (Some (snd (splitext ''/docs/report.pdf''))) @ present guess)"
proof -
  have r: "response_extensions example_world example_response no_kwargs = Inr [''.html'', ''.pdf'', ''.pdf'']"
    by code_simp
  have l: "local_extensions example_world ''/docs/report.pdf'' (no_kwargs\<lparr>kw_file_extension := Given ''.pdf''\<rparr>)
        = Inr [''.pdf'', ''.pdf'']"
    by code_simp
  from candidate_extensions_order [of example_world example_response no_kwargs "[''.html'', ''.pdf'', ''.pdf'']"] r
  have a: "\<exists>guess. u_guess_ext_magic example_world (resp_temp_path example_response) = Inr guess
        \<and> [''.html'', ''.pdf'', ''.pdf''] =
            explicit_extension no_kwargs @ present (content_type_extension example_world example_response)
              @ present (disposition_extension example_response)
              @ present (url_path_extension example_world example_response) @ present guess"
    by blast
  from candidate_extensions_order [of example_world _ "no_kwargs\<lparr>kw_file_extension := Given ''.pdf''\<rparr>" _
      "''/docs/report.pdf''" "[''.pdf'', ''.pdf'']"] l
  have b: "\<exists>guess. u_guess_ext_magic example_world ''/docs/report.pdf'' = Inr guess
        \<and> [''.pdf'', ''.pdf''] =
            explicit_extension (no_kwargs\<lparr>kw_file_extension := Given ''.pdf''\<rparr>)
              @ present (Some (snd (splitext ''/docs/report.pdf''))) @ present guess"
    by blast
  from r l a b
  show ?thesis by blast
qed

theorem candidate_extensions_order_counterexample:
  "response_extensions example_world example_response no_kwargs
     \<noteq> Inr (claimed_order (explicit_extension no_kwargs)
               (url_path_extension example_world example_response)
               (disposition_extension example_response)
               (content_type_extension example_world example_response)
               None)"
  by code_simp

text \<open>
  C10. \<open>convert\<close> on a source that is neither a string nor a response returns None: it
  raises nothing and calls no converter.
\<close>

theorem convert_other_source:
  "(\<forall>s. src \<noteq> SourceStr s) \<Longrightarrow> (\<forall>r. src \<noteq> SourceResponse r) \<Longrightarrow> convert w src kw = Inr None"
  by (cases src) (simp_all add: convert_def)

theorem convert_other_source_witness:
  "(\<forall>s. SourceOther (PyInt 3) \<noteq> SourceStr s) \<and> (\<forall>r. SourceOther (PyInt 3) \<noteq> SourceResponse r)
   \<and> convert example_world (SourceOther (PyInt 3)) no_kwargs = Inr None"
  using convert_other_source [of "SourceOther (PyInt 3)" example_world no_kwargs] by simp

section \<open>The browser that the examples start from\<close>

lemma init_example: "init example_world None 8192 None None = Some (Inr example_browser)"
  by code_simp

section \<open>Claims that the code does not keep\<close>

text \<open>
  C1 (the code differs). \<open>set_address\<close> ends with assignments to \<open>self.find_on_page_query\<close>
  and \<open>self.find_on_page_viewport\<close>, while \<open>find_on_page\<close> and \<open>find_next\<close> keep their state
  in \<open>self._find_on_page_query\<close> and \<open>self._find_on_page_last_result\<close>. So the search state
  survives a change of address. Here the browser visits \<open>a.txt\<close>, finds \<open>needle\<close>, and
  visits \<open>b.txt\<close>: the viewport index is 0, the query and the last result are still set,
  and \<open>find_next\<close> then returns the viewport of the new page instead of None.
\<close>

theorem set_address_keeps_search_state:
  "map_option (\<lambda>(r, s). (r, viewport_current_page s, u_find_on_page_query s, u_find_on_page_last_result s))
     (py_seq (set_address example_world ''file:///docs/a.txt'' None)
        (py_seq (py_bind (find_on_page ''needle'') (\<lambda>found. py_return ()))
           (set_address example_world ''file:///docs/b.txt'' None)) example_browser)
     = Some (Inr (), 0, Some ''needle'', Some 0)
   \<and> map_option fst
     (py_seq (set_address example_world ''file:///docs/a.txt'' None)
        (py_seq (py_bind (find_on_page ''needle'') (\<lambda>found. py_return ()))
           (py_seq (set_address example_world ''file:///docs/b.txt'' None) find_next)) example_browser)
     = Some (Inr (Some ''other needle''))"
  by code_simp

text \<open>
  C2 (the code differs). \<open>/docs/notes\<close> reads as text, has no extension and gets no magic
  guess, so the candidate list is empty and no converter is tried. The last call of
  \<open>_convert\<close>, \<open>PlainTextConverter().convert(local_path, **kwargs)\<close>, passes the caller's
  keyword arguments, which hold no \<open>file_extension\<close>; the converter's own gate then
  returns None, and so does the conversion, instead of the file's text.
\<close>

theorem convert_last_resort_declines:
  "read_text example_world ''/docs/notes'' (Some ''utf-8'') = Inr (''a  '' @ [NL, NL, NL, NL] @ ''b'')
   \<and> local_extensions example_world ''/docs/notes'' no_kwargs = Inr []
   \<and> u_convert example_world ''/docs/notes'' [] no_kwargs = Inr None
   \<and> convert_local example_world ''/docs/notes'' no_kwargs = Inr None
   \<and> convert example_world (SourceStr ''/docs/notes'') no_kwargs = Inr None"
  by code_simp

text \<open>
  C4 (the code differs). With \<open>file_extension=None\<close> passed by the caller the last call of
  \<open>_convert\<close> does read the file, and its result is returned as it is: the two
  normalising assignments stand inside the loop only. The text returned for \<open>/docs/notes\<close>
  keeps its trailing blanks and its four newlines in a row; the same file converted with
  the extension \<open>.txt\<close> comes back normalised.
\<close>

theorem convert_last_resort_not_normalized:
  "convert_local example_world ''/docs/notes'' (no_kwargs\<lparr>kw_file_extension := PyNone\<rparr>)
     = Inr (Some \<lparr>title = None, text_content = ''a  '' @ [NL, NL, NL, NL] @ ''b''\<rparr>)
   \<and> convert_local example_world ''/docs/notes'' (no_kwargs\<lparr>kw_file_extension := Given ''.txt''\<rparr>)
     = Inr (Some \<lparr>title = None, text_content = ''a'' @ [NL, NL] @ ''b''\<rparr>)"
  by code_simp

text \<open>
  C8 (the code differs). \<open>visit_page\<close> on the \<open>file://\<close> address of \<open>/docs/notes\<close>: the
  conversion returns None (see C2), \<open>_fetch_page\<close> reads \<open>res.title\<close>, and the
  AttributeError is none of the exceptions its \<open>except\<close> clauses name. It reaches the
  caller of \<open>visit_page\<close>.
\<close>

theorem visit_page_raises:
  "map_option fst (visit_page example_world ''file:///docs/notes'' None example_browser)
     = Some (Inl (AttributeError ''title''))"
  by code_simp

section \<open>The conversion loop\<close>

text \<open>
  The two nested loops of \<open>_convert\<close> try the pairs of an extension and a converter in
  one fixed order, \<open>attempts\<close>; \<open>attempt\<close> is the outcome of one of them.
\<close>

definition attempts :: "string list \<Rightarrow> (string \<times> converter) list" where
  "attempts exts = concat (map (\<lambda>ext. map (\<lambda>c. (ext, c)) page_converters) exts)"

definition attempt :: "world \<Rightarrow> string \<Rightarrow> kwargs \<Rightarrow> string \<times> converter
    \<Rightarrow> error + document_converter_result option" where
  "attempt w local_path kw p =
     converter_convert w (snd p) local_path (kw\<lparr>kw_file_extension := Given (fst p)\<rparr>)"

definition succeeds :: "error + document_converter_result option \<Rightarrow> bool" where
  "succeeds outcome = (case outcome of Inr (Some res) \<Rightarrow> True | _ \<Rightarrow> False)"

definition raises :: "error + document_converter_result option \<Rightarrow> bool" where
  "raises outcome = (case outcome of Inl e \<Rightarrow> True | _ \<Rightarrow> False)"

fun first_result :: "(error + document_converter_result option) list \<Rightarrow> string
    \<Rightarrow> document_converter_result option \<times> string" where
  \<comment> \<open>what the loops make of a list of outcomes, from the trace \<open>tr\<close> on\<close>
  "first_result [] tr = (None, tr)"
| "first_result (outcome # rest) tr =
     (case outcome of
        Inr (Some res) \<Rightarrow> (Some (res\<lparr>text_content := normalize_content (text_content res)\<rparr>), tr)
      | Inr None \<Rightarrow> first_result rest tr
      | Inl e \<Rightarrow> first_result rest (strip ([NL, NL] @ format_exc e)))"

lemma first_result_append:
  "first_result (xs @ ys) tr =
     (case first_result xs tr of (Some res, t) \<Rightarrow> (Some res, t) | (None, t) \<Rightarrow> first_result ys t)"
  by (induction xs arbitrary: tr) (auto split: sum.splits option.splits)

lemma try_converters_first_result:
  "try_converters w local_path kw ext cs tr
     = first_result (map (\<lambda>c. attempt w local_path kw (ext, c)) cs) tr"
  by (induction cs arbitrary: tr) (auto simp: attempt_def split: sum.splits option.splits)

lemma try_extensions_first_result:
  "try_extensions w local_path kw exts tr
     = first_result (map (attempt w local_path kw) (attempts exts)) tr"
proof (induction exts arbitrary: tr)
  case Nil
  then show ?case by (simp add: attempts_def)
next
  case (Cons ext exts)
  have split: "map (attempt w local_path kw) (attempts (ext # exts))
      = map (\<lambda>c. attempt w local_path kw (ext, c)) page_converters
          @ map (attempt w local_path kw) (attempts exts)"
    by (simp add: attempts_def comp_def)
  show ?case
    unfolding split first_result_append
    by (simp add: try_converters_first_result Cons.IH split: prod.splits option.splits)
qed

lemma first_result_skips:
  "\<forall>outcome\<in>set pre. \<not> succeeds outcome \<Longrightarrow>
   fst (first_result (pre @ Inr (Some res) # post) tr)
     = Some (res\<lparr>text_content := normalize_content (text_content res)\<rparr>)"
  by (induction pre arbitrary: tr) (auto simp: succeeds_def split: sum.splits option.splits)

lemma first_result_none:
  "fst (first_result outcomes tr) = None \<longleftrightarrow> (\<forall>outcome\<in>set outcomes. \<not> succeeds outcome)"
  by (induction outcomes arbitrary: tr) (auto simp: succeeds_def split: sum.splits option.splits)

lemma first_result_no_error:
  "\<forall>outcome\<in>set outcomes. \<not> raises outcome \<Longrightarrow> \<forall>outcome\<in>set outcomes. \<not> succeeds outcome \<Longrightarrow>
   snd (first_result outcomes tr) = tr"
  by (induction outcomes arbitrary: tr) (auto simp: raises_def succeeds_def split: sum.splits option.splits)

lemma first_result_last_error:
  "\<forall>outcome\<in>set (pre @ Inl e # post). \<not> succeeds outcome \<Longrightarrow> \<forall>outcome\<in>set post. \<not> raises outcome \<Longrightarrow>
   first_result (pre @ Inl e # post) tr = (None, strip ([NL, NL] @ format_exc e))"
proof -
  assume a: "\<forall>outcome\<in>set (pre @ Inl e # post). \<not> succeeds outcome"
    and b: "\<forall>outcome\<in>set post. \<not> raises outcome"
  from a have pre: "fst (first_result pre tr) = None"
    by (simp add: first_result_none)
  from a have post: "\<forall>outcome\<in>set post. \<not> succeeds outcome"
    by simp
  have "first_result post (strip ([NL, NL] @ format_exc e)) = (None, strip ([NL, NL] @ format_exc e))"
    using first_result_no_error [OF b post] first_result_none [of post] post
    by (metis prod.collapse)
  with pre show ?thesis
    by (cases "first_result pre tr") (simp add: first_result_append)
qed

lemma strip_empty: "strip s = [] \<longleftrightarrow> (\<forall>c\<in>set s. is_space c)"
proof -
  have "strip s = [] \<longleftrightarrow> (\<forall>c\<in>set (dropWhile is_space s). is_space c)"
    by (simp add: strip_def rstrip_def lstrip_def dropWhile_eq_Nil_conv)
  also have "\<dots> \<longleftrightarrow> (\<forall>c\<in>set s. is_space c)"
  proof
    assume h: "\<forall>c\<in>set (dropWhile is_space s). is_space c"
    show "\<forall>c\<in>set s. is_space c"
    proof (rule ccontr)
      assume "\<not> (\<forall>c\<in>set s. is_space c)"
      then have ne: "dropWhile is_space s \<noteq> []"
        by (simp add: dropWhile_eq_Nil_conv)
      then have "\<not> is_space (hd (dropWhile is_space s))"
        by (rule hd_dropWhile)
      with ne h show False
        by (metis list.set_sel(1))
    qed
  next
    assume "\<forall>c\<in>set s. is_space c"
    then show "\<forall>c\<in>set (dropWhile is_space s). is_space c"
      by (meson set_dropWhileD)
  qed
  finally show ?thesis .
qed

lemma error_trace_not_empty: "strip (NL # NL # format_exc e) \<noteq> []"
proof -
  have "CHR ''T'' \<in> set (NL # NL # format_exc e)"
    by (simp add: format_exc_def)
  moreover have "\<not> is_space CHR ''T''"
    by (simp add: is_space_def)
  ultimately show ?thesis
    unfolding strip_empty by blast
qed

lemma first_result_trace:
  "first_result outcomes [] = (None, tr) \<Longrightarrow> tr \<noteq> [] \<Longrightarrow> \<exists>outcome\<in>set outcomes. raises outcome"
  using first_result_no_error [of outcomes "[]"] first_result_none [of outcomes "[]"]
  by (metis fst_conv snd_conv)

lemma lower_Nil: "lower [] = []"
  by (simp add: lower_def)

lemma attempt_blank_extension: "\<not> raises (attempt w local_path kw ([], c))"
  by (cases c) (simp_all add: attempt_def raises_def gated_def kw_get_or_def lower_Nil)

lemma in_attempts: "p \<in> set (attempts exts) \<longleftrightarrow> fst p \<in> set exts \<and> snd p \<in> set page_converters"
  by (cases p) (auto simp: attempts_def)

lemma plain_text_registered: "PlainTextConverter \<in> set page_converters"
  by (simp add: page_converters_def)

lemma plain_text_attempt:
  "ext \<noteq> [] \<Longrightarrow> \<not> succeeds (attempt w local_path kw (ext, PlainTextConverter)) \<Longrightarrow>
   \<exists>err. read_text w local_path (kw_get_or ''utf-8'' (kw_encoding kw)) = Inl err"
  by (auto simp: attempt_def succeeds_def kw_get_or_def split: sum.splits)

lemma u_convert_first_result:
  "u_convert w local_path exts kw =
     (case first_result (map (attempt w local_path kw) (attempts exts)) [] of
        (Some res, tr) \<Rightarrow> Inr (Some res)
      | (None, tr) \<Rightarrow>
          if tr \<noteq> [] then Inl (FileConversionException local_path exts tr)
          else converter_convert w PlainTextConverter local_path kw)"
  by (simp add: u_convert_def try_extensions_first_result split: prod.splits option.splits)

lemma u_convert_raises:
  assumes "u_convert w local_path exts kw = Inl e"
  shows "(\<forall>p\<in>set (attempts exts). \<not> succeeds (attempt w local_path kw p))
    \<and> (\<exists>err. read_text w local_path (kw_get_or ''utf-8'' (kw_encoding kw)) = Inl err)"
proof -
  obtain r tr where fr: "first_result (map (attempt w local_path kw) (attempts exts)) [] = (r, tr)"
    by (cases "first_result (map (attempt w local_path kw) (attempts exts)) []")
  from assms fr have r: "r = None"
    by (cases r) (simp_all add: u_convert_first_result)
  from fr r have none: "\<forall>p\<in>set (attempts exts). \<not> succeeds (attempt w local_path kw p)"
    using first_result_none [of "map (attempt w local_path kw) (attempts exts)" "[]"] by simp
  have "\<exists>err. read_text w local_path (kw_get_or ''utf-8'' (kw_encoding kw)) = Inl err"
  proof (cases "tr = []")
    case True
    with assms fr r have "converter_convert w PlainTextConverter local_path kw = Inl e"
      by (simp add: u_convert_first_result)
    then show ?thesis
      by (auto simp: Let_def split: if_splits sum.splits)
  next
    case False
    with fr r obtain p where p: "p \<in> set (attempts exts)" "raises (attempt w local_path kw p)"
      using first_result_trace [of "map (attempt w local_path kw) (attempts exts)" tr] by auto
    then have ext: "fst p \<noteq> []"
      using attempt_blank_extension [of w local_path kw "snd p"] by (metis prod.collapse)
    from p have "(fst p, PlainTextConverter) \<in> set (attempts exts)"
      by (simp add: in_attempts plain_text_registered)
    with none have "\<not> succeeds (attempt w local_path kw (fst p, PlainTextConverter))"
      by blast
    with ext show ?thesis
      by (rule plain_text_attempt)
  qed
  with none show ?thesis by blast
qed

text \<open>
  C3 (as amended). In \<open>_convert\<close>, a converter that raises is passed over: the result
  is that of the first pair that yields one, whatever raised before it. The call raises
  only when no pair yields a result and the file does not read as text. When no pair
  yields a result and some pair raised, it raises FileConversionException with the path,
  the list of extensions and the trace of the last exception. When no pair yields a result
  and none raised, an exception of the call is the one that reading the file raises, as
  it is, without the list and without a trace. So a file that reads as text never makes
  \<open>_convert\<close> raise.
\<close>

theorem convert_errors_recoverable:
  "(map (attempt w local_path kw) (attempts exts) = pre @ Inr (Some res) # post
      \<and> (\<forall>outcome\<in>set pre. \<not> succeeds outcome)
      \<longrightarrow> u_convert w local_path exts kw
            = Inr (Some (res\<lparr>text_content := normalize_content (text_content res)\<rparr>)))
   \<and> (u_convert w local_path exts kw = Inl e
      \<longrightarrow> (\<forall>p\<in>set (attempts exts). \<not> succeeds (attempt w local_path kw p))
          \<and> (\<exists>err. read_text w local_path (kw_get_or ''utf-8'' (kw_encoding kw)) = Inl err))
   \<and> (map (attempt w local_path kw) (attempts exts) = pre' @ Inl e' # post'
      \<and> (\<forall>p\<in>set (attempts exts). \<not> succeeds (attempt w local_path kw p))
      \<and> (\<forall>outcome\<in>set post'. \<not> raises outcome)
      \<longrightarrow> u_convert w local_path exts kw
            = Inl (FileConversionException local_path exts (strip ([NL, NL] @ format_exc e'))))
   \<and> ((\<forall>p\<in>set (attempts exts). \<not> succeeds (attempt w local_path kw p)
                                   \<and> \<not> raises (attempt w local_path kw p))
      \<and> u_convert w local_path exts kw = Inl e''
      \<longrightarrow> read_text w local_path (kw_get_or ''utf-8'' (kw_encoding kw)) = Inl e'')"
proof (intro conjI impI)
  assume "map (attempt w local_path kw) (attempts exts) = pre @ Inr (Some res) # post
      \<and> (\<forall>outcome\<in>set pre. \<not> succeeds outcome)"
  then show "u_convert w local_path exts kw
            = Inr (Some (res\<lparr>text_content := normalize_content (text_content res)\<rparr>))"
    using first_result_skips [of pre res post "[]"]
    by (cases "first_result (pre @ Inr (Some res) # post) []") (simp add: u_convert_first_result)
next
  assume "u_convert w local_path exts kw = Inl e"
  then show "\<forall>p\<in>set (attempts exts). \<not> succeeds (attempt w local_path kw p)"
    and "\<exists>err. read_text w local_path (kw_get_or ''utf-8'' (kw_encoding kw)) = Inl err"
    using u_convert_raises by blast+
next
  assume a: "map (attempt w local_path kw) (attempts exts) = pre' @ Inl e' # post'
      \<and> (\<forall>p\<in>set (attempts exts). \<not> succeeds (attempt w local_path kw p))
      \<and> (\<forall>outcome\<in>set post'. \<not> raises outcome)"
  then have "\<forall>outcome\<in>set (pre' @ Inl e' # post'). \<not> succeeds outcome"
    by (metis (no_types, lifting) imageE list.set_map)
  with a have "first_result (map (attempt w local_path kw) (attempts exts)) []
      = (None, strip ([NL, NL] @ format_exc e'))"
    using first_result_last_error [of pre' e' post' "[]"] by simp
  then show "u_convert w local_path exts kw
            = Inl (FileConversionException local_path exts (strip ([NL, NL] @ format_exc e')))"
    by (simp add: u_convert_first_result error_trace_not_empty)
next
  assume b: "(\<forall>p\<in>set (attempts exts). \<not> succeeds (attempt w local_path kw p)
                                   \<and> \<not> raises (attempt w local_path kw p))
      \<and> u_convert w local_path exts kw = Inl e''"
  then have quiet: "\<forall>outcome\<in>set (map (attempt w local_path kw) (attempts exts)). \<not> raises outcome"
      "\<forall>outcome\<in>set (map (attempt w local_path kw) (attempts exts)). \<not> succeeds outcome"
    by simp_all
  have "first_result (map (attempt w local_path kw) (attempts exts)) [] = (None, [])"
    using first_result_no_error [OF quiet, of "[]"]
      first_result_none [of "map (attempt w local_path kw) (attempts exts)" "[]"] quiet(2)
    by (metis prod.collapse)
  with b have "converter_convert w PlainTextConverter local_path kw = Inl e''"
    by (simp add: u_convert_first_result)
  then show "read_text w local_path (kw_get_or ''utf-8'' (kw_encoding kw)) = Inl e''"
    by (auto simp: Let_def split: if_splits sum.splits)
qed

theorem convert_errors_recoverable_witness:
  "u_convert example_world ''/docs/report.pdf'' [''.pdf''] no_kwargs
     = Inr (Some \<lparr>title = None, text_content = ''plain text''\<rparr>)
   \<and> u_convert example_world ''/docs/missing.pdf'' [''.pdf''] no_kwargs
     = Inl (FileConversionException ''/docs/missing.pdf'' [''.pdf'']
              (''Traceback (most recent call last):'' @ [NL] @ ''FileNotFoundError: /docs/missing.pdf''))
   \<and> (\<exists>err. read_text example_world ''/docs/missing.pdf'' (Some ''utf-8'') = Inl err)
   \<and> u_convert example_world ''/docs/missing'' [] (no_kwargs\<lparr>kw_file_extension := PyNone\<rparr>)
     = Inl (FileNotFoundError ''/docs/missing'')
   \<and> read_text example_world ''/docs/missing'' (Some ''utf-8'') = Inl (FileNotFoundError ''/docs/missing'')"
proof -
  let ?declined = "[Inr None, Inr None, Inr None, Inr None, Inr None, Inl (OtherError ''cannot parse''),
      Inr None, Inr None] :: (error + document_converter_result option) list"
  have found: "map (attempt example_world ''/docs/report.pdf'' no_kwargs) (attempts [''.pdf''])
      = ?declined @ Inr (Some \<lparr>title = None, text_content = ''plain text''\<rparr>) # []"
    by code_simp
  have declined: "\<forall>outcome\<in>set ?declined. \<not> succeeds outcome"
    by (simp add: succeeds_def)
  have norm: "normalize_content ''plain text'' = ''plain text''"
    by code_simp
  from convert_errors_recoverable [of example_world "''/docs/report.pdf''" no_kwargs "[''.pdf'']"
      ?declined "\<lparr>title = None, text_content = ''plain text''\<rparr>" "[]"] found declined norm
  have first: "u_convert example_world ''/docs/report.pdf'' [''.pdf''] no_kwargs
     = Inr (Some \<lparr>title = None, text_content = ''plain text''\<rparr>)"
    by simp
  have missing: "map (attempt example_world ''/docs/missing.pdf'' no_kwargs) (attempts [''.pdf''])
      = ?declined @ Inl (FileNotFoundError ''/docs/missing.pdf'') # []"
    by code_simp
  have "\<forall>outcome\<in>set (map (attempt example_world ''/docs/missing.pdf'' no_kwargs) (attempts [''.pdf''])).
      \<not> succeeds outcome"
    unfolding missing by (simp add: succeeds_def)
  then have none: "\<forall>p\<in>set (attempts [''.pdf'']).
      \<not> succeeds (attempt example_world ''/docs/missing.pdf'' no_kwargs p)"
    by simp
  have trace: "strip ([NL, NL] @ format_exc (FileNotFoundError ''/docs/missing.pdf''))
      = ''Traceback (most recent call last):'' @ [NL] @ ''FileNotFoundError: /docs/missing.pdf''"
    by code_simp
  from convert_errors_recoverable [of example_world "''/docs/missing.pdf''" no_kwargs "[''.pdf'']"
      _ _ _ _ ?declined "FileNotFoundError ''/docs/missing.pdf''" "[]"] missing none
  have second: "u_convert example_world ''/docs/missing.pdf'' [''.pdf''] no_kwargs
     = Inl (FileConversionException ''/docs/missing.pdf'' [''.pdf'']
              (''Traceback (most recent call last):'' @ [NL] @ ''FileNotFoundError: /docs/missing.pdf''))"
    unfolding trace by simp
  from convert_errors_recoverable [of example_world "''/docs/missing.pdf''" no_kwargs "[''.pdf'']"
      _ _ _ "FileConversionException ''/docs/missing.pdf'' [''.pdf'']
              (''Traceback (most recent call last):'' @ [NL] @ ''FileNotFoundError: /docs/missing.pdf'')"] second
  have third: "\<exists>err. read_text example_world ''/docs/missing.pdf'' (Some ''utf-8'') = Inl err"
    by (simp add: kw_get_or_def no_kwargs_def)
  have raw: "u_convert example_world ''/docs/missing'' [] (no_kwargs\<lparr>kw_file_extension := PyNone\<rparr>)
     = Inl (FileNotFoundError ''/docs/missing'')"
    by code_simp
  have quiet: "\<forall>p\<in>set (attempts []).
      \<not> succeeds (attempt example_world ''/docs/missing'' (no_kwargs\<lparr>kw_file_extension := PyNone\<rparr>) p)
      \<and> \<not> raises (attempt example_world ''/docs/missing'' (no_kwargs\<lparr>kw_file_extension := PyNone\<rparr>) p)"
    by (simp add: attempts_def)
  from convert_errors_recoverable [of example_world "''/docs/missing''"
      "no_kwargs\<lparr>kw_file_extension := PyNone\<rparr>" "[]" _ _ _ _ _ _ _ "FileNotFoundError ''/docs/missing''"]
    raw quiet
  have fourth: "read_text example_world ''/docs/missing'' (Some ''utf-8'')
      = Inl (FileNotFoundError ''/docs/missing'')"
    by (simp add: kw_get_or_def no_kwargs_def)
  from first second third raw fourth show ?thesis by blast
qed

theorem convert_errors_recoverable_counterexample:
  "u_convert example_world ''/docs/missing'' [] (no_kwargs\<lparr>kw_file_extension := PyNone\<rparr>)
     = Inl (FileNotFoundError ''/docs/missing'')
   \<and> convert_local example_world ''/docs/missing'' (no_kwargs\<lparr>kw_file_extension := PyNone\<rparr>)
     = Inl (FileNotFoundError ''/docs/missing'')
   \<and> convert_local
       (example_world\<lparr>read_text := (\<lambda>p enc. Inr []),
                       magic_file := (\<lambda>p. Inl (OtherError ''Input was empty''))\<rparr>)
       ''/docs/empty.txt'' no_kwargs
     = Inl (OtherError ''Input was empty'')"
  by code_simp

section \<open>Pagination\<close>

declare adjust_end.simps [simp del]

definition is_break :: "char \<Rightarrow> bool" where
  \<comment> \<open>the four characters \<open>_split_pages\<close> lets a viewport end on\<close>
  "is_break c = List.member [CHR '' '', TAB, CR, NL] c"

fun viewports_from :: "string \<Rightarrow> int \<Rightarrow> (int \<times> int) list \<Rightarrow> bool" where
  \<comment> \<open>the viewports tile the text from offset \<open>a\<close> to its end, each one non-empty and each
      one but the last ending right after a break character\<close>
  "viewports_from content a [] = (a = int (length content))"
| "viewports_from content a (b # rest) =
     (fst b = a \<and> a < snd b \<and> snd b \<le> int (length content)
      \<and> (snd b < int (length content) \<longrightarrow> is_break (content ! nat (snd b - 1)))
      \<and> viewports_from content (snd b) rest)"

lemma py_index_in_range:
  "0 \<le> i \<Longrightarrow> i < int (length xs) \<Longrightarrow> py_index xs i = Some (xs ! nat i)"
  by (simp add: py_index_def)

lemma adjust_end_ok:
  "0 < e \<Longrightarrow> e \<le> int (length content) \<Longrightarrow>
   \<exists>e'. adjust_end content e = Inr e' \<and> e \<le> e' \<and> e' \<le> int (length content)
     \<and> (e' < int (length content) \<longrightarrow> is_break (content ! nat (e' - 1)))"
proof (induction content e rule: adjust_end.induct)
  case (1 content end_idx)
  show ?case
  proof (cases "end_idx < int (length content)")
    case False
    with "1.prems" show ?thesis
      by (subst adjust_end.simps) simp
  next
    case True
    with "1.prems" have idx: "py_index content (end_idx - 1) = Some (content ! nat (end_idx - 1))"
      by (simp add: py_index_in_range)
    show ?thesis
    proof (cases "is_break (content ! nat (end_idx - 1))")
      case True
      with \<open>end_idx < int (length content)\<close> idx show ?thesis
        by (subst adjust_end.simps) (simp add: is_break_def)
    next
      case False
      with True idx "1.prems"
      have "\<exists>e'. adjust_end content (end_idx + 1) = Inr e' \<and> end_idx + 1 \<le> e'
          \<and> e' \<le> int (length content)
          \<and> (e' < int (length content) \<longrightarrow> is_break (content ! nat (e' - 1)))"
        by (intro "1.IH") (simp_all add: is_break_def)
      then obtain e' where e': "adjust_end content (end_idx + 1) = Inr e'" "end_idx + 1 \<le> e'"
          "e' \<le> int (length content)"
          "e' < int (length content) \<longrightarrow> is_break (content ! nat (e' - 1))"
        by blast
      have "adjust_end content end_idx = adjust_end content (end_idx + 1)"
        using True idx False by (subst adjust_end.simps) (simp add: is_break_def)
      with e' show ?thesis by auto
    qed
  qed
qed

lemma split_loop_ok:
  "0 < vsize \<Longrightarrow> 0 \<le> a \<Longrightarrow> a \<le> int (length content) \<Longrightarrow>
   \<exists>ps. split_loop vsize content a acc = Some (None, acc @ ps) \<and> viewports_from content a ps"
proof (induction "nat (int (length content) - a)" arbitrary: a acc rule: less_induct)
  case less
  show ?case
  proof (cases "a < int (length content)")
    case False
    with less.prems have "a = int (length content)" by simp
    then have "split_loop vsize content a acc = Some (None, acc @ [])"
      by (subst split_loop.simps) simp
    moreover have "viewports_from content a []"
      using \<open>a = int (length content)\<close> by simp
    ultimately show ?thesis by blast
  next
    case True
    let ?e = "min (a + vsize) (int (length content))"
    from True less.prems have "0 < ?e" "?e \<le> int (length content)" "a < ?e"
      by auto
    with adjust_end_ok [of ?e content]
    obtain e' where e': "adjust_end content ?e = Inr e'" "?e \<le> e'" "e' \<le> int (length content)"
        "e' < int (length content) \<longrightarrow> is_break (content ! nat (e' - 1))"
      by blast
    from \<open>a < ?e\<close> e' have "a < e'" by linarith
    with e' less.prems have "nat (int (length content) - e') < nat (int (length content) - a)"
      by linarith
    from less.hyps [OF this less.prems(1), of "acc @ [(a, e')]"] \<open>a < e'\<close> less.prems e'
    obtain ps where ps: "split_loop vsize content e' ((acc @ [(a, e')]) @ ps) = split_loop vsize content e' ((acc @ [(a, e')]) @ ps)"
        "split_loop vsize content e' (acc @ [(a, e')]) = Some (None, (acc @ [(a, e')]) @ ps)"
        "viewports_from content e' ps"
      by auto
    have "split_loop vsize content a acc = split_loop vsize content e' (acc @ [(a, e')])"
      using True e' by (subst split_loop.simps) simp
    with ps have "split_loop vsize content a acc = Some (None, acc @ ((a, e') # ps))"
      by simp
    moreover have "viewports_from content a ((a, e') # ps)"
      using \<open>a < e'\<close> e' ps by simp
    ultimately show ?thesis by blast
  qed
qed

lemma viewports_from_hd: "viewports_from content a ps \<Longrightarrow> ps \<noteq> [] \<Longrightarrow> fst (hd ps) = a"
  by (cases ps) simp_all

lemma viewports_from_last:
  "viewports_from content a ps \<Longrightarrow> ps \<noteq> [] \<Longrightarrow> snd (last ps) = int (length content)"
  by (induction ps arbitrary: a) (auto split: if_splits)

lemma viewports_from_nth:
  "viewports_from content a ps \<Longrightarrow> i < length ps \<Longrightarrow>
   a \<le> fst (ps ! i) \<and> fst (ps ! i) < snd (ps ! i) \<and> snd (ps ! i) \<le> int (length content)"
proof (induction ps arbitrary: a i)
  case Nil
  then show ?case by simp
next
  case (Cons b rest)
  show ?case
  proof (cases i)
    case 0
    with Cons.prems show ?thesis by simp
  next
    case (Suc j)
    with Cons.prems have "viewports_from content (snd b) rest" "j < length rest" "a < snd b"
      by simp_all
    with Cons.IH [of "snd b" j] Suc show ?thesis by simp
  qed
qed

lemma viewports_from_step:
  "viewports_from content a ps \<Longrightarrow> Suc i < length ps \<Longrightarrow>
   fst (ps ! Suc i) = snd (ps ! i) \<and> snd (ps ! i) < int (length content)
     \<and> is_break (content ! nat (snd (ps ! i) - 1))"
proof (induction ps arbitrary: a i)
  case Nil
  then show ?case by simp
next
  case (Cons b rest)
  show ?case
  proof (cases i)
    case 0
    with Cons.prems obtain c rest' where rest: "rest = c # rest'"
      by (cases rest) auto
    with Cons.prems have "fst c = snd b" "snd b < snd c" "snd c \<le> int (length content)"
        "snd b < int (length content) \<longrightarrow> is_break (content ! nat (snd b - 1))"
      by simp_all
    with 0 rest show ?thesis by simp
  next
    case (Suc j)
    with Cons.prems have "viewports_from content (snd b) rest" "Suc j < length rest"
      by simp_all
    with Cons.IH [of "snd b" j] Suc show ?thesis by simp
  qed
qed

lemma viewports_from_concat:
  "viewports_from content a ps \<Longrightarrow> 0 \<le> a \<Longrightarrow>
   concat (map (\<lambda>b. py_slice content (fst b) (snd b)) ps) = drop (nat a) content"
proof (induction ps arbitrary: a)
  case Nil
  then show ?case by simp
next
  case (Cons b rest)
  then have b: "fst b = a" "a < snd b" "snd b \<le> int (length content)"
      and rest: "viewports_from content (snd b) rest"
    by simp_all
  with Cons.prems have slice: "py_slice content (fst b) (snd b) = take (nat (snd b - a)) (drop (nat a) content)"
    by (simp add: py_slice_def min_def)
  from Cons.IH [OF rest] b Cons.prems
  have "concat (map (\<lambda>b. py_slice content (fst b) (snd b)) rest) = drop (nat (snd b)) content"
    by simp
  also have "\<dots> = drop (nat (snd b - a)) (drop (nat a) content)"
    using b Cons.prems by (simp add: nat_diff_distrib' add.commute)
  finally have tail: "concat (map (\<lambda>b. py_slice content (fst b) (snd b)) rest)
      = drop (nat (snd b - a)) (drop (nat a) content)" .
  show ?case
    unfolding list.map concat.simps slice tail by (rule append_take_drop_id)
qed

lemma py_index_last: "xs \<noteq> [] \<Longrightarrow> py_index xs (- 1) = Some (last xs)"
  by (simp add: py_index_def last_conv_nth nat_diff_distrib')

lemma address_ok: "history s \<noteq> [] \<Longrightarrow> address s = Some (Inr (fst (last (history s))), s)"
  by (simp add: address_def py_bind_def py_gets_def py_return_def py_index_last)

definition tiles :: "bool \<Rightarrow> string \<Rightarrow> (int \<times> int) list \<Rightarrow> bool" where
  \<comment> \<open>what \<open>_split_pages\<close> computes for a text, on a search page and elsewhere\<close>
  "tiles search content ps =
     (if search then ps = [(0, int (length content))]
      else if content = [] then ps = [(0, 0)]
      else viewports_from content 0 ps)"

lemma tiles_not_empty: "tiles search content ps \<Longrightarrow> ps \<noteq> []"
  by (cases ps) (auto simp: tiles_def split: if_splits)

lemma u_split_pages_ok:
  assumes "0 < viewport_size s" and "history s \<noteq> []"
  shows "\<exists>ps. u_split_pages s = Some (Inr (), s\<lparr>viewport_pages := ps\<rparr>)
    \<and> tiles (startswith (fst (last (history s))) ''google:'') (u_page_content s) ps"
proof (cases "startswith (fst (last (history s))) ''google:''")
  case True
  with assms show ?thesis
    by (simp add: u_split_pages_def py_bind_def address_ok py_modify_def tiles_def)
next
  case False
  show ?thesis
  proof (cases "u_page_content s = []")
    case True
    with False assms show ?thesis
      by (simp add: u_split_pages_def py_bind_def address_ok py_modify_def py_gets_def tiles_def)
  next
    case nonempty: False
    from split_loop_ok [of "viewport_size s" 0 "u_page_content s" "[]"] assms
    obtain ps where ps: "split_loop (viewport_size s) (u_page_content s) 0 [] = Some (None, ps)"
        "viewports_from (u_page_content s) 0 ps"
      by auto
    with False nonempty assms show ?thesis
      by (auto simp: u_split_pages_def py_bind_def address_ok py_gets_def tiles_def
          intro!: exI [of _ ps])
  qed
qed

lemma u_set_page_content_ok:
  assumes "0 < viewport_size s" and "history s \<noteq> []"
  shows "\<exists>ps. u_set_page_content content s
      = Some (Inr (), s\<lparr>u_page_content := content, viewport_pages := ps,
                         viewport_current_page :=
                           (if viewport_current_page s \<ge> int (length ps) then int (length ps) - 1
                            else viewport_current_page s)\<rparr>)
    \<and> tiles (startswith (fst (last (history s))) ''google:'') content ps"
proof -
  let ?s1 = "s\<lparr>u_page_content := content\<rparr>"
  from u_split_pages_ok [of ?s1] assms
  obtain ps where ps: "u_split_pages ?s1 = Some (Inr (), ?s1\<lparr>viewport_pages := ps\<rparr>)"
      "tiles (startswith (fst (last (history s))) ''google:'') content ps"
    by auto
  then show ?thesis
    by (auto simp: u_set_page_content_def py_seq_def py_bind_def py_modify_def intro!: exI [of _ ps])
qed

text \<open>
  C6. Setting a page text on an address that is not a search gives viewports that tile the
  text: the first starts at 0, each next one starts where the one before ends, the last
  ends at the length of the text, and the slices put together are the text. Every
  viewport but the last ends right after a space, tab, carriage return or newline. The
  empty text has the one viewport \<open>(0, 0)\<close>. The viewport size is taken to be positive:
  \<open>_split_pages\<close> need not return for a size of 0 or less.
\<close>

theorem viewports_partition:
  assumes "0 < viewport_size s"
    and "history s \<noteq> []"
    and "\<not> startswith (fst (last (history s))) ''google:''"
  shows "\<exists>s'. u_set_page_content content s = Some (Inr (), s')
    \<and> u_page_content s' = content
    \<and> viewport_pages s' \<noteq> []
    \<and> fst (hd (viewport_pages s')) = 0
    \<and> snd (last (viewport_pages s')) = int (length content)
    \<and> (\<forall>i. Suc i < length (viewport_pages s') \<longrightarrow>
          fst (viewport_pages s' ! Suc i) = snd (viewport_pages s' ! i)
          \<and> 0 < snd (viewport_pages s' ! i) \<and> snd (viewport_pages s' ! i) < int (length content)
          \<and> is_break (content ! nat (snd (viewport_pages s' ! i) - 1)))
    \<and> (\<forall>i < length (viewport_pages s'). fst (viewport_pages s' ! i) \<le> snd (viewport_pages s' ! i))
    \<and> concat (map (\<lambda>b. py_slice content (fst b) (snd b)) (viewport_pages s')) = content
    \<and> (content = [] \<longrightarrow> viewport_pages s' = [(0, 0)])"
proof -
  from u_set_page_content_ok [OF assms(1,2), of content] assms(3)
  obtain ps s' where s': "u_set_page_content content s = Some (Inr (), s')"
      "u_page_content s' = content" "viewport_pages s' = ps"
      and ps: "tiles False content ps"
    by auto
  show ?thesis
  proof (cases "content = []")
    case True
    with ps have "ps = [(0, 0)]"
      by (simp add: tiles_def)
    with s' True show ?thesis
      by (simp add: py_slice_def)
  next
    case False
    with ps have tiled: "viewports_from content 0 ps"
      by (simp add: tiles_def)
    from ps have ne: "ps \<noteq> []"
      by (rule tiles_not_empty)
    have "\<forall>i. Suc i < length ps \<longrightarrow>
          fst (ps ! Suc i) = snd (ps ! i) \<and> 0 < snd (ps ! i) \<and> snd (ps ! i) < int (length content)
          \<and> is_break (content ! nat (snd (ps ! i) - 1))"
      using viewports_from_step [OF tiled] viewports_from_nth [OF tiled]
      by (metis Suc_lessD order_le_less_trans)
    moreover have "\<forall>i < length ps. fst (ps ! i) \<le> snd (ps ! i)"
      using viewports_from_nth [OF tiled] by (simp add: order_less_imp_le)
    moreover have "concat (map (\<lambda>b. py_slice content (fst b) (snd b)) ps) = content"
      using viewports_from_concat [OF tiled] by simp
    ultimately show ?thesis
      using s' False ne viewports_from_hd [OF tiled ne] viewports_from_last [OF tiled ne]
      by simp
  qed
qed

section \<open>Find on page\<close>

text \<open>
  \<open>page_matches s q i\<close>: viewport \<open>i\<close> of the page matches the query \<open>q\<close>, by the test
  in the loop of \<open>_find_next_viewport\<close>. \<open>cycle_from n start\<close> is the list \<open>idxs\<close> of that
  method: the indices from \<open>start\<close> to the last viewport, then those before \<open>start\<close>.
  \<open>find_start\<close> is the viewport a call of \<open>find_on_page\<close> starts from: the current one,
  or the next one when the call maps to \<open>find_next\<close>.
\<close>

definition page_matches :: "browser \<Rightarrow> string \<Rightarrow> int \<Rightarrow> bool" where
  "page_matches s q i =
     (case py_index (viewport_pages s) i of
        None \<Rightarrow> False
      | Some bounds \<Rightarrow>
          viewport_matches (normalize_query q) (py_slice (u_page_content s) (fst bounds) (snd bounds)))"

definition cycle_from :: "int \<Rightarrow> int \<Rightarrow> int list" where
  "cycle_from n start = py_range start n @ py_range 0 start"

definition next_start :: "browser \<Rightarrow> int \<Rightarrow> int" where
  \<comment> \<open>one past the viewport \<open>m\<close>, wrapping\<close>
  "next_start s m = (if m + 1 \<ge> int (length (viewport_pages s)) then 0 else m + 1)"

definition find_start :: "browser \<Rightarrow> string \<Rightarrow> int" where
  "find_start s q =
     (if Some q = u_find_on_page_query s \<and> Some (viewport_current_page s) = u_find_on_page_last_result s
      then next_start s (viewport_current_page s)
      else viewport_current_page s)"

definition matching_from :: "browser \<Rightarrow> string \<Rightarrow> int \<Rightarrow> int list" where
  \<comment> \<open>the matching viewports in forward order from \<open>start\<close>, with wraparound\<close>
  "matching_from s q start =
     filter (page_matches s q) (cycle_from (int (length (viewport_pages s))) start)"

fun find_next_visits :: "nat \<Rightarrow> browser \<Rightarrow> int list" where
  \<comment> \<open>the viewports that \<open>k\<close> calls of \<open>find_next\<close> in a row go to\<close>
  "find_next_visits 0 s = []"
| "find_next_visits (Suc k) s =
     (case find_next s of
        Some (Inr (Some text), s') \<Rightarrow> viewport_current_page s' # find_next_visits k s'
      | _ \<Rightarrow> [])"

definition find_visits :: "string \<Rightarrow> nat \<Rightarrow> browser \<Rightarrow> int list" where
  \<comment> \<open>the viewports that \<open>find_on_page(q)\<close> and then \<open>k\<close> calls of \<open>find_next\<close> go to\<close>
  "find_visits q k s =
     (case find_on_page q s of
        Some (Inr (Some text), s') \<Rightarrow> viewport_current_page s' # find_next_visits k s'
      | _ \<Rightarrow> [])"

lemma set_cycle_from:
  "0 \<le> start \<Longrightarrow> start \<le> n \<Longrightarrow> set (cycle_from n start) = {0..n - 1}"
  by (auto simp: cycle_from_def py_range_def)

lemma distinct_cycle_from: "distinct (cycle_from n start)"
  by (auto simp: cycle_from_def py_range_def)

lemma search_idxs_find:
  "\<forall>i\<in>set idxs. 0 \<le> i \<and> i < int (length (viewport_pages s)) \<Longrightarrow>
   search_idxs (normalize_query q) (u_page_content s) (viewport_pages s) idxs
     = Inr (List.find (page_matches s q) idxs)"
  by (induction idxs) (auto simp: page_matches_def py_index_def)

lemma find_filter: "List.find P xs = (case filter P xs of [] \<Rightarrow> None | x # rest \<Rightarrow> Some x)"
  by (induction xs) auto

lemma u_find_next_viewport_ok:
  assumes "strip (normalize_query q) \<noteq> []"
    and "0 \<le> start" and "start \<le> int (length (viewport_pages s))"
  shows "u_find_next_viewport (Some q) start s
    = Some (Inr (case matching_from s q start of [] \<Rightarrow> None | m # rest \<Rightarrow> Some m), s)"
proof -
  have "\<forall>i\<in>set (cycle_from (int (length (viewport_pages s))) start).
      0 \<le> i \<and> i < int (length (viewport_pages s))"
    using set_cycle_from [OF assms(2,3)] by auto
  from search_idxs_find [OF this, of q] assms(1) show ?thesis
    by (simp add: u_find_next_viewport_def py_bind_def py_gets_def py_lift_def cycle_from_def
        matching_from_def find_filter)
qed

lemma matching_from_in_range:
  assumes "0 \<le> start" and "start \<le> int (length (viewport_pages s))"
    and "m \<in> set (matching_from s q start)"
  shows "0 \<le> m \<and> m < int (length (viewport_pages s)) \<and> page_matches s q m"
  using assms set_cycle_from [OF assms(1,2)] by (auto simp: matching_from_def)

lemma goto_match_ok:
  assumes "0 \<le> m" and "m < int (length (viewport_pages s))"
  shows "goto_match (Some m) s
    = Some (Inr (Some (py_slice (u_page_content s) (fst (viewport_pages s ! nat m))
                          (snd (viewport_pages s ! nat m)))),
            s\<lparr>viewport_current_page := m, u_find_on_page_last_result := Some m\<rparr>)"
  using assms
  by (simp add: goto_match_def py_seq_def py_bind_def py_modify_def viewport_def py_gets_def
      py_return_def py_index_def)

lemma next_start_in_range:
  "0 \<le> m \<Longrightarrow> 0 \<le> next_start s m \<and> next_start s m \<le> int (length (viewport_pages s))"
  by (simp add: next_start_def)

lemma find_next_ok:
  assumes "u_find_on_page_query s = Some q" and "u_find_on_page_last_result s = Some m0"
    and "0 \<le> m0" and "strip (normalize_query q) \<noteq> []"
    and "matching_from s q (next_start s m0) = m # rest"
  shows "\<exists>text. find_next s
    = Some (Inr (Some text), s\<lparr>viewport_current_page := m, u_find_on_page_last_result := Some m\<rparr>)"
proof -
  from assms(5) have "m \<in> set (matching_from s q (next_start s m0))"
    by simp
  with matching_from_in_range [of "next_start s m0" s m q] next_start_in_range [OF assms(3), of s]
  have m: "0 \<le> m" "m < int (length (viewport_pages s))"
    by simp_all
  from u_find_next_viewport_ok [OF assms(4), of "next_start s m0" s]
    next_start_in_range [OF assms(3), of s] assms(5)
  have "u_find_next_viewport (Some q) (next_start s m0) s = Some (Inr (Some m), s)"
    by simp
  with assms(1,2) goto_match_ok [OF m] show ?thesis
    by (simp add: find_next_def py_bind_def py_gets_def next_start_def Let_def)
qed

lemma filter_rotate:
  assumes "xs = us @ m # vs" and "m \<notin> set us" and "filter P xs = m # rest"
  shows "filter P (vs @ us @ [m]) = rest @ [m]"
proof -
  have "filter P us = []"
  proof (rule ccontr)
    assume "filter P us \<noteq> []"
    then obtain y ys where y: "filter P us = y # ys"
      by (cases "filter P us") auto
    with assms(1,3) have "y = m" by simp
    moreover from y have "y \<in> set (filter P us)" by simp
    then have "y \<in> set us" by simp
    ultimately show False using assms(2) by simp
  qed
  from assms(3) have "m \<in> set (filter P xs)" by simp
  then have "P m" by simp
  with assms(1,3) \<open>filter P us = []\<close> have "rest = filter P vs"
    by simp
  with \<open>filter P us = []\<close> \<open>P m\<close> show ?thesis by simp
qed

lemma cycle_from_split:
  assumes "0 \<le> start" and "start \<le> n" and "0 \<le> m" and "m < n"
  shows "\<exists>us vs. cycle_from n start = us @ m # vs \<and> m \<notin> set us
    \<and> cycle_from n (if m + 1 \<ge> n then 0 else m + 1) = vs @ us @ [m]"
proof (cases "start \<le> m")
  case True
  let ?us = "[start..m - 1]"
  let ?vs = "[m + 1..n - 1] @ [0..start - 1]"
  have a: "[start..n - 1] = [start..m - 1] @ m # [m + 1..n - 1]"
    using True assms by (intro upto_split3) simp_all
  have b: "[0..m] = [0..start - 1] @ [start..m - 1] @ [m]"
  proof -
    have "[0..m] = [0..start - 1] @ [start..m]"
      using True assms by (intro upto_split1) simp_all
    moreover have "[start..m] = [start..m - 1] @ [m]"
      using True by (simp add: upto_rec2)
    ultimately show ?thesis by simp
  qed
  have "cycle_from n start = ?us @ m # ?vs"
    using a by (simp add: cycle_from_def py_range_def)
  moreover have "m \<notin> set ?us" by simp
  moreover have "cycle_from n (if m + 1 \<ge> n then 0 else m + 1) = ?vs @ ?us @ [m]"
  proof (cases "m + 1 \<ge> n")
    case True
    with assms have "m = n - 1" by simp
    with b show ?thesis
      by (simp add: cycle_from_def py_range_def)
  next
    case False
    with b show ?thesis
      by (simp add: cycle_from_def py_range_def)
  qed
  ultimately show ?thesis by blast
next
  case False
  let ?us = "[start..n - 1] @ [0..m - 1]"
  let ?vs = "[m + 1..start - 1]"
  from False assms have less: "m + 1 \<le> start" by simp
  have a: "[0..start - 1] = [0..m - 1] @ m # [m + 1..start - 1]"
    using False assms by (intro upto_split3) simp_all
  have b: "[m + 1..n - 1] = [m + 1..start - 1] @ [start..n - 1]"
  proof (cases "start = n")
    case True
    then show ?thesis by simp
  next
    case False
    with less assms show ?thesis by (intro upto_split1) simp_all
  qed
  have c: "[0..m] = [0..m - 1] @ [m]"
    using assms by (simp add: upto_rec2)
  have "cycle_from n start = ?us @ m # ?vs"
    using a by (simp add: cycle_from_def py_range_def)
  moreover have "m \<notin> set ?us" using False by simp
  moreover have "cycle_from n (if m + 1 \<ge> n then 0 else m + 1) = ?vs @ ?us @ [m]"
  proof (cases "m + 1 \<ge> n")
    case True
    with less assms have "start = n" "m = n - 1" by simp_all
    with c show ?thesis
      by (simp add: cycle_from_def py_range_def)
  next
    case False
    with b c show ?thesis
      by (simp add: cycle_from_def py_range_def)
  qed
  ultimately show ?thesis by blast
qed

lemma matching_from_next:
  assumes "0 \<le> start" and "start \<le> int (length (viewport_pages s))"
    and "matching_from s q start = m # rest"
  shows "matching_from s q (next_start s m) = rest @ [m]"
proof -
  from assms(3) have "m \<in> set (matching_from s q start)" by simp
  with matching_from_in_range [OF assms(1,2)]
  have m: "0 \<le> m" "m < int (length (viewport_pages s))"
    by blast+
  from cycle_from_split [OF assms(1,2) m]
  obtain us vs where split: "cycle_from (int (length (viewport_pages s))) start = us @ m # vs"
      "m \<notin> set us"
      "cycle_from (int (length (viewport_pages s))) (next_start s m) = vs @ us @ [m]"
    unfolding next_start_def by blast
  from filter_rotate [OF split(1,2), of "page_matches s q" rest] assms(3) split(3)
  show ?thesis
    by (simp add: matching_from_def)
qed

lemma cyclic_cons:
  "m # map (\<lambda>j. (rest @ [m]) ! (j mod length (m # rest))) [0..<k]
     = map (\<lambda>j. (m # rest) ! (j mod length (m # rest))) [0..<Suc k]"
proof -
  have "(rest @ [m]) ! (j mod length (m # rest)) = (m # rest) ! (Suc j mod length (m # rest))" for j
    using nth_rotate1 [of "j mod length (m # rest)" "m # rest"]
    by (simp add: mod_Suc_eq)
  then have "map (\<lambda>j. (rest @ [m]) ! (j mod length (m # rest))) [0..<k]
      = map (\<lambda>j. (m # rest) ! (j mod length (m # rest))) (map Suc [0..<k])"
    by (simp add: comp_def)
  then show ?thesis
    by (simp add: map_Suc_upt upt_conv_Cons del: upt_Suc)
qed

lemma page_matches_moved:
  "page_matches (s\<lparr>viewport_current_page := m, u_find_on_page_last_result := r\<rparr>) q = page_matches s q"
  by (auto simp: page_matches_def fun_eq_iff split: option.splits)

lemma matching_from_moved:
  "matching_from (s\<lparr>viewport_current_page := m, u_find_on_page_last_result := r\<rparr>) q start
     = matching_from s q start"
  by (simp add: matching_from_def page_matches_moved)

lemma next_start_moved:
  "next_start (s\<lparr>viewport_current_page := m, u_find_on_page_last_result := r\<rparr>) i = next_start s i"
  by (simp add: next_start_def)

lemma find_next_visits_cycle:
  assumes "u_find_on_page_query s = Some q" and "u_find_on_page_last_result s = Some m0"
    and "0 \<le> m0" and "strip (normalize_query q) \<noteq> []"
    and "matching_from s q (next_start s m0) = ms" and "ms \<noteq> []"
  shows "find_next_visits k s = map (\<lambda>j. ms ! (j mod length ms)) [0..<k]"
  using assms
proof (induction k arbitrary: s m0 ms)
  case 0
  then show ?case by simp
next
  case (Suc k)
  from Suc.prems(5,6) obtain m rest where ms: "ms = m # rest"
    by (cases ms) auto
  let ?s' = "s\<lparr>viewport_current_page := m, u_find_on_page_last_result := Some m\<rparr>"
  from find_next_ok [OF Suc.prems(1-4)] Suc.prems(5) ms
  obtain found where step: "find_next s = Some (Inr (Some found), ?s')"
    by auto
  from Suc.prems(5) ms have "m \<in> set (matching_from s q (next_start s m0))"
    by simp
  with matching_from_in_range [of "next_start s m0" s m q] next_start_in_range [OF Suc.prems(3), of s]
  have m: "0 \<le> m" by simp
  from matching_from_next [of "next_start s m0" s q m rest] next_start_in_range [OF Suc.prems(3), of s]
    Suc.prems(5) ms
  have nxt: "matching_from ?s' q (next_start ?s' m) = rest @ [m]"
    by (simp add: matching_from_moved next_start_moved)
  have "find_next_visits k ?s' = map (\<lambda>j. (rest @ [m]) ! (j mod length (rest @ [m]))) [0..<k]"
    using Suc.prems(1,4) m nxt by (intro Suc.IH [of ?s' m]) simp_all
  with step ms show ?case
    using cyclic_cons [of m rest k] by simp
qed

lemma page_matches_same_page:
  "viewport_pages s' = viewport_pages s \<Longrightarrow> u_page_content s' = u_page_content s \<Longrightarrow>
   page_matches s' q = page_matches s q"
  by (auto simp: page_matches_def fun_eq_iff split: option.splits)

lemma matching_from_same_page:
  "viewport_pages s' = viewport_pages s \<Longrightarrow> u_page_content s' = u_page_content s \<Longrightarrow>
   matching_from s' q start = matching_from s q start"
  using page_matches_same_page [of s' s q] by (simp add: matching_from_def)

lemma matching_from_all:
  assumes "0 \<le> start" and "start \<le> int (length (viewport_pages s))"
  shows "distinct (matching_from s q start)
    \<and> set (matching_from s q start)
        = {i. 0 \<le> i \<and> i < int (length (viewport_pages s)) \<and> page_matches s q i}"
  using set_cycle_from [OF assms] distinct_cycle_from
  by (auto simp: matching_from_def)

lemma find_start_in_range:
  "0 \<le> viewport_current_page s \<Longrightarrow> viewport_current_page s < int (length (viewport_pages s)) \<Longrightarrow>
   0 \<le> find_start s q \<and> find_start s q \<le> int (length (viewport_pages s))"
  by (simp add: find_start_def next_start_def)

lemma find_visits_cycle:
  assumes cur: "0 \<le> viewport_current_page s" "viewport_current_page s < int (length (viewport_pages s))"
    and q: "strip (normalize_query q) \<noteq> []"
    and ms: "matching_from s q (find_start s q) = ms" "ms \<noteq> []"
  shows "find_visits q k s = map (\<lambda>j. ms ! (j mod length ms)) [0..<Suc k]"
proof (cases "Some q = u_find_on_page_query s \<and> Some (viewport_current_page s) = u_find_on_page_last_result s")
  case True
  then have same: "find_on_page q s = find_next s"
    by (simp add: find_on_page_def py_bind_def py_gets_def)
  from True ms have "matching_from s q (next_start s (viewport_current_page s)) = ms"
    by (simp add: find_start_def)
  with True cur q ms(2)
  have "find_next_visits (Suc k) s = map (\<lambda>j. ms ! (j mod length ms)) [0..<Suc k]"
    by (intro find_next_visits_cycle [of s q "viewport_current_page s"]) simp_all
  then show ?thesis
    by (simp add: find_visits_def same)
next
  case False
  from ms obtain m rest where mr: "ms = m # rest"
    by (cases ms) auto
  let ?s1 = "s\<lparr>u_find_on_page_query := Some q\<rparr>"
  let ?s' = "?s1\<lparr>viewport_current_page := m, u_find_on_page_last_result := Some m\<rparr>"
  from False have "find_start s q = viewport_current_page s"
    by (auto simp: find_start_def)
  with ms mr have from_cur: "matching_from s q (viewport_current_page s) = m # rest"
    by simp
  then have "m \<in> set (matching_from s q (viewport_current_page s))"
    by simp
  with matching_from_in_range [of "viewport_current_page s" s m q] cur
  have m: "0 \<le> m" "m < int (length (viewport_pages s))"
    by simp_all
  have "matching_from ?s1 q (viewport_current_page s) = m # rest"
    using from_cur matching_from_same_page [of ?s1 s q "viewport_current_page s"] by simp
  with u_find_next_viewport_ok [OF q, of "viewport_current_page s" ?s1] cur
  have "u_find_next_viewport (Some q) (viewport_current_page s) ?s1 = Some (Inr (Some m), ?s1)"
    by simp
  with False goto_match_ok [of m ?s1] m
  obtain found where step: "find_on_page q s = Some (Inr (Some found), ?s')"
    by (simp add: find_on_page_def py_bind_def py_gets_def py_seq_def py_modify_def)
  from matching_from_next [of "viewport_current_page s" s q m rest] cur from_cur
  have "matching_from s q (next_start s m) = rest @ [m]"
    by simp
  moreover have "next_start ?s' m = next_start s m"
    by (simp add: next_start_def)
  ultimately have nxt: "matching_from ?s' q (next_start ?s' m) = rest @ [m]"
    using matching_from_same_page [of ?s' s q "next_start s m"] by simp
  have "find_next_visits k ?s' = map (\<lambda>j. (rest @ [m]) ! (j mod length (rest @ [m]))) [0..<k]"
    using q m nxt by (intro find_next_visits_cycle [of ?s' q m]) simp_all
  with step mr show ?thesis
    using cyclic_cons [of m rest k] by (simp add: find_visits_def)
qed

lemma cyclic_once: "map (\<lambda>j. ms ! (j mod length ms)) [0..<length ms] = ms"
proof -
  have "map (\<lambda>j. ms ! (j mod length ms)) [0..<length ms] = map ((!) ms) [0..<length ms]"
    by (rule map_cong) simp_all
  then show ?thesis
    by (simp add: map_nth)
qed

text \<open>
  C7. On a page where some viewport matches the non-empty normalised query \<open>q\<close>, let
  \<open>ms\<close> be the matching viewports in forward order with wraparound from the viewport the
  search starts at. \<open>find_on_page(q)\<close> followed by calls of \<open>find_next()\<close> goes through
  \<open>ms\<close> over and over: the first \<open>length ms\<close> calls visit every matching viewport, each one
  once, and only the next call comes back to the first of them. \<open>find_next()\<close> with no
  query set returns None and leaves the state as it is.
\<close>

theorem find_visits_every_match_once:
  "(0 \<le> viewport_current_page s \<and> viewport_current_page s < int (length (viewport_pages s))
      \<and> strip (normalize_query q) \<noteq> []
      \<and> (\<exists>i. 0 \<le> i \<and> i < int (length (viewport_pages s)) \<and> page_matches s q i)
    \<longrightarrow> (let ms = matching_from s q (find_start s q) in
          distinct ms
          \<and> set ms = {i. 0 \<le> i \<and> i < int (length (viewport_pages s)) \<and> page_matches s q i}
          \<and> (\<forall>k. find_visits q k s = map (\<lambda>j. ms ! (j mod length ms)) [0..<Suc k])
          \<and> find_visits q (length ms - 1) s = ms
          \<and> find_visits q (length ms) s = ms @ [hd ms]))
   \<and> (u_find_on_page_query s' = None \<longrightarrow> find_next s' = Some (Inr None, s'))"
proof (intro conjI impI)
  assume a: "0 \<le> viewport_current_page s \<and> viewport_current_page s < int (length (viewport_pages s))
      \<and> strip (normalize_query q) \<noteq> []
      \<and> (\<exists>i. 0 \<le> i \<and> i < int (length (viewport_pages s)) \<and> page_matches s q i)"
  define ms where "ms = matching_from s q (find_start s q)"
  from a find_start_in_range [of s q]
  have range: "0 \<le> find_start s q" "find_start s q \<le> int (length (viewport_pages s))"
    by simp_all
  from matching_from_all [OF range, of q]
  have all: "distinct ms"
      "set ms = {i. 0 \<le> i \<and> i < int (length (viewport_pages s)) \<and> page_matches s q i}"
    by (simp_all add: ms_def)
  from a obtain i where "0 \<le> i \<and> i < int (length (viewport_pages s)) \<and> page_matches s q i"
    by blast
  then have "i \<in> set ms"
    by (simp add: all(2))
  then have ne: "ms \<noteq> []"
    by (cases ms) simp_all
  have cyc: "find_visits q k s = map (\<lambda>j. ms ! (j mod length ms)) [0..<Suc k]" for k
    using a ne by (intro find_visits_cycle) (simp_all add: ms_def)
  from ne have len: "Suc (length ms - 1) = length ms"
    by (cases ms) simp_all
  have once: "find_visits q (length ms - 1) s = ms"
    unfolding cyc len by (rule cyclic_once)
  have "find_visits q (length ms) s
      = map (\<lambda>j. ms ! (j mod length ms)) [0..<length ms] @ [ms ! (length ms mod length ms)]"
    unfolding cyc by simp
  with ne have again: "find_visits q (length ms) s = ms @ [hd ms]"
    by (simp add: cyclic_once hd_conv_nth)
  show "let ms = matching_from s q (find_start s q) in
          distinct ms
          \<and> set ms = {i. 0 \<le> i \<and> i < int (length (viewport_pages s)) \<and> page_matches s q i}
          \<and> (\<forall>k. find_visits q k s = map (\<lambda>j. ms ! (j mod length ms)) [0..<Suc k])
          \<and> find_visits q (length ms - 1) s = ms
          \<and> find_visits q (length ms) s = ms @ [hd ms]"
    unfolding ms_def [symmetric] Let_def
    by (intro conjI allI) (fact all(1) all(2) cyc once again)+
next
  assume "u_find_on_page_query s' = None"
  then show "find_next s' = Some (Inr None, s')"
    by (simp add: find_next_def py_bind_def py_gets_def py_return_def)
qed

section \<open>A page of three viewports\<close>

text \<open>
  \<open>small_browser\<close> is the browser \<open>SimpleTextBrowser(viewport_size=6)\<close>; \<open>paged_browser\<close> is
  that browser after the text \<open>alpha beta gamma alpha\<close> was set as its page and one
  \<open>page_down()\<close>. Its viewports are \<open>alpha \<close>, \<open>beta gamma \<close> and \<open>alpha\<close>, and it shows the
  second.
\<close>

definition small_browser :: browser where
  "small_browser = example_browser\<lparr>viewport_size := 6\<rparr>"

definition paged_browser :: browser where
  "paged_browser =
     small_browser\<lparr>u_page_content := ''alpha beta gamma alpha'',
                    viewport_pages := [(0, 6), (6, 17), (17, 22)],
                    viewport_current_page := 1\<rparr>"

lemma init_small: "init example_world None 6 None None = Some (Inr small_browser)"
  by code_simp

lemma paged_browser_reached:
  "py_seq (u_set_page_content ''alpha beta gamma alpha'') page_down small_browser
     = Some (Inr (), paged_browser)"
  by code_simp

theorem viewports_partition_witness:
  "0 < viewport_size small_browser
   \<and> history small_browser \<noteq> []
   \<and> \<not> startswith (fst (last (history small_browser))) ''google:''
   \<and> map_option (\<lambda>r. viewport_pages (snd r)) (u_set_page_content ''alpha beta gamma alpha'' small_browser)
       = Some [(0, 6), (6, 17), (17, 22)]
   \<and> (\<exists>s'. u_set_page_content ''alpha beta gamma alpha'' small_browser = Some (Inr (), s')
        \<and> viewport_pages s' \<noteq> []
        \<and> fst (hd (viewport_pages s')) = 0
        \<and> snd (last (viewport_pages s')) = 22
        \<and> concat (map (\<lambda>b. py_slice ''alpha beta gamma alpha'' (fst b) (snd b)) (viewport_pages s'))
            = ''alpha beta gamma alpha'')"
proof -
  have h1: "0 < viewport_size small_browser"
    by code_simp
  have h2: "history small_browser \<noteq> []"
    by code_simp
  have h3: "\<not> startswith (fst (last (history small_browser))) ''google:''"
    by code_simp
  have pages: "map_option (\<lambda>r. viewport_pages (snd r))
      (u_set_page_content ''alpha beta gamma alpha'' small_browser) = Some [(0, 6), (6, 17), (17, 22)]"
    by code_simp
  from viewports_partition [OF h1 h2 h3, of "''alpha beta gamma alpha''"]
  obtain s' where "u_set_page_content ''alpha beta gamma alpha'' small_browser = Some (Inr (), s')"
      "viewport_pages s' \<noteq> []" "fst (hd (viewport_pages s')) = 0"
      "snd (last (viewport_pages s')) = int (length ''alpha beta gamma alpha'')"
      "concat (map (\<lambda>b. py_slice ''alpha beta gamma alpha'' (fst b) (snd b)) (viewport_pages s'))
            = ''alpha beta gamma alpha''"
    by blast
  then have "\<exists>s'. u_set_page_content ''alpha beta gamma alpha'' small_browser = Some (Inr (), s')
        \<and> viewport_pages s' \<noteq> []
        \<and> fst (hd (viewport_pages s')) = 0
        \<and> snd (last (viewport_pages s')) = 22
        \<and> concat (map (\<lambda>b. py_slice ''alpha beta gamma alpha'' (fst b) (snd b)) (viewport_pages s'))
            = ''alpha beta gamma alpha''"
    by (intro exI [of _ s']) simp
  with h1 h2 h3 pages show ?thesis
    by blast
qed

theorem find_visits_every_match_once_witness:
  "0 \<le> viewport_current_page paged_browser
   \<and> viewport_current_page paged_browser < int (length (viewport_pages paged_browser))
   \<and> strip (normalize_query ''alpha'') \<noteq> []
   \<and> (\<exists>i. 0 \<le> i \<and> i < int (length (viewport_pages paged_browser)) \<and> page_matches paged_browser ''alpha'' i)
   \<and> matching_from paged_browser ''alpha'' (find_start paged_browser ''alpha'') = [2, 0]
   \<and> find_visits ''alpha'' 1 paged_browser = [2, 0]
   \<and> find_visits ''alpha'' 2 paged_browser = [2, 0, 2]
   \<and> u_find_on_page_query paged_browser = None
   \<and> find_next paged_browser = Some (Inr None, paged_browser)"
proof -
  have h1: "0 \<le> viewport_current_page paged_browser"
    by code_simp
  have h2: "viewport_current_page paged_browser < int (length (viewport_pages paged_browser))"
    by code_simp
  have h3: "strip (normalize_query ''alpha'') \<noteq> []"
    by code_simp
  have "0 \<le> (0::int) \<and> 0 < int (length (viewport_pages paged_browser)) \<and> page_matches paged_browser ''alpha'' 0"
    by code_simp
  then have h4: "\<exists>i. 0 \<le> i \<and> i < int (length (viewport_pages paged_browser)) \<and> page_matches paged_browser ''alpha'' i"
    by blast
  have ms: "matching_from paged_browser ''alpha'' (find_start paged_browser ''alpha'') = [2, 0]"
    by code_simp
  have h5: "u_find_on_page_query paged_browser = None"
    by code_simp
  from find_visits_every_match_once [of paged_browser "''alpha''" paged_browser] h1 h2 h3 h4 h5
  have "find_visits ''alpha'' (length [2, 0 :: int] - 1) paged_browser = [2, 0]"
    and "find_visits ''alpha'' (length [2, 0 :: int]) paged_browser = [2, 0] @ [hd [2, 0]]"
    and "find_next paged_browser = Some (Inr None, paged_browser)"
    unfolding ms Let_def by blast+
  with h1 h2 h3 h4 h5 ms show ?thesis
    by (simp add: numeral_2_eq_2)
qed

section \<open>The invariant of the browser\<close>

text \<open>
  \<open>viewport_in_range\<close> is the invariant of C9. \<open>inv v b\<close> is what the proof carries through
  the methods: the viewport size is \<open>v\<close> and positive, the history is not empty, the
  current index and the last search result are not negative and, when \<open>b\<close> holds, the
  viewport list is not empty and the index is below its length. \<open>triple P m Q E\<close> says
  that from a state with \<open>P\<close> the statement \<open>m\<close> ends, with \<open>Q\<close> when it returns and with
  \<open>E\<close> when it raises.
\<close>

definition viewport_in_range :: "browser \<Rightarrow> bool" where
  "viewport_in_range s =
     (viewport_pages s \<noteq> [] \<and> 0 \<le> viewport_current_page s
      \<and> viewport_current_page s < int (length (viewport_pages s)))"

definition last_result_ok :: "browser \<Rightarrow> bool" where
  "last_result_ok s = (case u_find_on_page_last_result s of None \<Rightarrow> True | Some r \<Rightarrow> 0 \<le> r)"

definition inv :: "int \<Rightarrow> bool \<Rightarrow> browser \<Rightarrow> bool" where
  "inv v b s =
     (viewport_size s = v \<and> 0 < v \<and> history s \<noteq> [] \<and> 0 \<le> viewport_current_page s
      \<and> last_result_ok s \<and> (b \<longrightarrow> viewport_in_range s))"

definition triple :: "('s \<Rightarrow> bool) \<Rightarrow> ('s, 'a) prog \<Rightarrow> ('a \<Rightarrow> 's \<Rightarrow> bool) \<Rightarrow> ('s \<Rightarrow> bool) \<Rightarrow> bool" where
  "triple P m Q E =
     (\<forall>s. P s \<longrightarrow> (\<exists>r s'. m s = Some (r, s') \<and> (case r of Inr x \<Rightarrow> Q x s' | Inl e \<Rightarrow> E s')))"

lemma tripleI:
  "(\<And>s. P s \<Longrightarrow> \<exists>r s'. m s = Some (r, s') \<and> (case r of Inr x \<Rightarrow> Q x s' | Inl e \<Rightarrow> E s')) \<Longrightarrow>
   triple P m Q E"
  by (simp add: triple_def)

lemma tripleD:
  "triple P m Q E \<Longrightarrow> P s \<Longrightarrow>
   \<exists>r s'. m s = Some (r, s') \<and> (case r of Inr x \<Rightarrow> Q x s' | Inl e \<Rightarrow> E s')"
  by (simp add: triple_def)





lemma triple_modify: "(\<And>s. P s \<Longrightarrow> Q (f s)) \<Longrightarrow> triple P (py_modify f) (\<lambda>y. Q) E"
  by (simp add: triple_def py_modify_def)

lemma triple_bind:
  assumes "triple P m (\<lambda>y. R) E" and "\<And>x. triple R (f x) Q E"
  shows "triple P (py_bind m f) Q E"
proof (rule tripleI)
  fix s assume "P s"
  from tripleD [OF assms(1) this] obtain r s' where
    m: "m s = Some (r, s')" "case r of Inr x \<Rightarrow> R s' | Inl e \<Rightarrow> E s'"
    by blast
  show "\<exists>r s'. py_bind m f s = Some (r, s') \<and> (case r of Inr x \<Rightarrow> Q x s' | Inl e \<Rightarrow> E s')"
  proof (cases r)
    case (Inl e)
    with m show ?thesis by (simp add: py_bind_def)
  next
    case (Inr x)
    with m have "R s'" by simp
    from tripleD [OF assms(2) this, of x] Inr m show ?thesis
      by (simp add: py_bind_def)
  qed
qed

lemma triple_seq:
  "triple P m (\<lambda>y. R) E \<Longrightarrow> triple R n Q E \<Longrightarrow> triple P (py_seq m n) Q E"
  unfolding py_seq_def by (rule triple_bind)


lemma triple_post:
  "triple P m Q E \<Longrightarrow> (\<And>x s. Q x s \<Longrightarrow> Q' x s) \<Longrightarrow> triple P m Q' E"
  unfolding triple_def by (metis (no_types, lifting) sum.case_eq_if)




lemma inv_weaken: "inv v True s \<Longrightarrow> inv v b s"
  by (simp add: inv_def)

lemma inv_page_title: "inv v b s \<Longrightarrow> inv v b (s\<lparr>page_title := t\<rparr>)"
  by (simp add: inv_def viewport_in_range_def last_result_ok_def)

lemma set_title_keeps: "triple (inv v b) (py_modify (\<lambda>s. s\<lparr>page_title := t\<rparr>)) (\<lambda>y. inv v b) E"
  by (rule triple_modify) (rule inv_page_title)

lemma u_set_page_content_lands:
  "triple (inv v b) (u_set_page_content content) (\<lambda>y. inv v True) E"
proof (rule tripleI)
  fix s assume s: "inv v b s"
  then have "0 < viewport_size s" "history s \<noteq> []"
    by (simp_all add: inv_def)
  from u_set_page_content_ok [OF this, of content]
  obtain ps where ps: "u_set_page_content content s
      = Some (Inr (), s\<lparr>u_page_content := content, viewport_pages := ps,
                         viewport_current_page :=
                           (if viewport_current_page s \<ge> int (length ps) then int (length ps) - 1
                            else viewport_current_page s)\<rparr>)"
      "tiles (startswith (fst (last (history s))) ''google:'') content ps"
    by blast
  from ps(2) have "ps \<noteq> []"
    by (rule tiles_not_empty)
  with s have "inv v True (s\<lparr>u_page_content := content, viewport_pages := ps,
                         viewport_current_page :=
                           (if viewport_current_page s \<ge> int (length ps) then int (length ps) - 1
                            else viewport_current_page s)\<rparr>)"
    by (simp add: inv_def viewport_in_range_def last_result_ok_def)
  with ps(1) show "\<exists>r s'. u_set_page_content content s = Some (r, s')
      \<and> (case r of Inr x \<Rightarrow> inv v True s' | Inl e \<Rightarrow> E s')"
    by simp
qed

lemma titled_page_lands:
  "triple (inv v b) (py_seq (py_modify (\<lambda>s. s\<lparr>page_title := t\<rparr>)) (u_set_page_content content))
     (\<lambda>y. inv v True) E"
  by (rule triple_seq [OF set_title_keeps u_set_page_content_lands])



declare u_searxng_search.simps [simp del]





















definition pre :: "int \<Rightarrow> bool \<Rightarrow> browser \<Rightarrow> bool" where
  \<comment> \<open>\<open>inv\<close> without the history: what \<open>set_address\<close> needs of the state it starts from\<close>
  "pre v b s =
     (viewport_size s = v \<and> 0 < v \<and> 0 \<le> viewport_current_page s \<and> last_result_ok s
      \<and> (b \<longrightarrow> viewport_in_range s))"





















end
